(* ===== verification/Todo_Prelude.thy ===== *)
theory Todo_Prelude
  imports Main "HOL-Library.Sublist" "HOL-Library.Multiset"
begin

text \<open>
  Shared vocabulary of the development: the collection of the page's operation definitions,
  the JavaScript idiom \<open>xs.find(p)\<close> followed by an in-place mutation of the found object
  (used by \<open>toggleTodo\<close> in \<open>src/app.js\<close>) as the list function \<open>update_first\<close>, and
  the generic lemmas on \<open>filter\<close>, \<open>find\<close> and \<open>subseq\<close> that the
  component proofs share.
\<close>

named_theorems todo_ops \<open>definitions of the operations of the TodoList component\<close>

subsection \<open>Finding the first match and mutating it\<close>

text \<open>
  \<open>const x = xs.find(p); if (x) { mutate(x) }\<close>: the objects of a JavaScript array are
  references, so mutating the result of \<open>find\<close> changes the first element that satisfies
  \<open>p\<close> and nothing else. On a list of values this is \<open>update_first p f\<close>.
\<close>

fun update_first :: "('a \<Rightarrow> bool) \<Rightarrow> ('a \<Rightarrow> 'a) \<Rightarrow> 'a list \<Rightarrow> 'a list" where
  "update_first p f [] = []"
| "update_first p f (x # xs) = (if p x then f x # xs else x # update_first p f xs)"

lemma length_update_first [simp]: "length (update_first p f xs) = length xs"
  by (induction xs) auto

lemma update_first_no_match [simp]: "find p xs = None \<Longrightarrow> update_first p f xs = xs"
  by (induction xs) auto

lemma map_update_first_keep:
  assumes "\<And>x. g (f x) = g x"
  shows "map g (update_first p f xs) = map g xs"
  by (induction xs) (auto simp: assms)

lemma update_first_changes: "find p xs = Some x \<Longrightarrow> f x \<noteq> x \<Longrightarrow> update_first p f xs \<noteq> xs"
  by (induction xs) (auto split: if_splits)

lemma update_first_distinct:
  "distinct (map key xs) \<Longrightarrow>
   update_first (\<lambda>x. key x = k) f xs = map (\<lambda>x. if key x = k then f x else x) xs"
proof (induction xs)
  case (Cons x xs)
  show ?case
  proof (cases "key x = k")
    case True
    with Cons.prems have "\<forall>y\<in>set xs. key y \<noteq> k" by (auto simp: image_iff)
    then have "map (\<lambda>y. if key y = k then f y else y) xs = xs" by (auto intro: map_idI)
    with True show ?thesis by simp
  next
    case False
    with Cons show ?thesis by simp
  qed
qed simp

subsection \<open>Lists and filters\<close>

lemma filter_length_partition [simp]:
  "length (filter (\<lambda>x. \<not> P x) xs) + length (filter P xs) = length xs"
  by (induction xs) auto

lemma subseq_map_filter [intro]: "subseq (map f (filter P xs)) (map f xs)"
  by (rule subseq_map) simp

end
