(* ===== verification/Js_String.thy ===== *)
theory Js_String
  imports Todo_Prelude
begin

text \<open>
  The JavaScript string operations that \<open>src/app.js\<close> relies on: \<open>String.prototype.trim\<close>
  and the truthiness of a string in an \<open>if\<close>. A JavaScript string is a sequence of UTF-16
  code units; the model's \<open>char\<close> is a code unit below 256, so the whitespace set below is
  the part of ECMAScript's WhiteSpace and LineTerminator sets in that range (TAB, LF, VT,
  FF, CR, SPACE and NO-BREAK SPACE).
\<close>

definition js_whitespace :: "char \<Rightarrow> bool" where
  "js_whitespace c \<longleftrightarrow>
     c \<in> set [CHR 0x09, CHR 0x0A, CHR 0x0B, CHR 0x0C, CHR 0x0D, CHR 0x20, CHR 0xA0]"

text \<open>\<open>s.trim()\<close>: strip whitespace at both ends.\<close>

definition js_trim :: "string \<Rightarrow> string" where
  "js_trim s = rev (dropWhile js_whitespace (rev (dropWhile js_whitespace s)))"

text \<open>A string is truthy in a condition exactly when it is not the empty string.\<close>

definition js_truthy_str :: "string \<Rightarrow> bool" where
  "js_truthy_str s \<longleftrightarrow> s \<noteq> []"

subsection \<open>Properties of trim\<close>

lemma all_dropWhile_iff: "(\<forall>x\<in>set (dropWhile P xs). P x) \<longleftrightarrow> (\<forall>x\<in>set xs. P x)"
  by (induction xs) auto

text \<open>The guard of \<open>addTodo\<close>: the trimmed input is empty exactly when every character is whitespace.\<close>

lemma js_trim_Nil_iff [simp]: "js_trim s = [] \<longleftrightarrow> (\<forall>c\<in>set s. js_whitespace c)"
  by (simp add: js_trim_def all_dropWhile_iff)

end
