(* ===== verification/Json.thy ===== *)
theory Json
  imports Todo_Prelude
begin

text \<open>
  The two library calls through which \<open>src/app.js\<close> persists its list: \<open>JSON.stringify\<close>
  (\<open>saveTodos\<close>, line 79) and \<open>JSON.parse\<close> (\<open>data\<close>, line 24), following ECMA-262
  (\<open>SerializeJSONProperty\<close>, \<open>QuoteJSONString\<close>) and the JSON grammar of ECMA-404.
  Values are the datatype \<open>json\<close>; an object is the list of its members as written.
  Numbers are integers (the program stores \<open>Date.now()\<close> values) and string characters
  are code units below 256 (Isabelle's \<open>char\<close>).
  \<^item> \<open>json_stringify\<close> prints a value without whitespace; strings are escaped as
    \<open>QuoteJSONString\<close> does (\<open>\"\<close>, \<open>\\\<close>, \<open>\b \t \n \f \r\<close>, other control
    characters as lowercase \<open>\u00XX\<close>).
  \<^item> The parser \<open>parse_value\<close>/\<open>parse_elems\<close>/\<open>parse_members\<close> is a recursive descent
    over the characters, skipping JSON whitespace between tokens. Its flag \<open>lax\<close> selects
    what it does with the two kinds of valid JSON the value type does not represent: a
    number with a fraction or an exponent and a \<open>\u\<close> escape above \<open>00ff\<close>. In strict
    mode (\<open>json_parse\<close>) they are rejected; in lax mode they are accepted with a
    placeholder value (the number's integer part, the escape's low byte), so that
    \<open>json_valid\<close> is exactly the JSON grammar: it holds when \<open>JSON.parse\<close> returns and
    fails when it throws a \<open>SyntaxError\<close>.
  \<^item> The recursion is bounded by fuel, and \<open>json_parse\<close> and \<open>json_valid\<close> give it
    \<open>2 * length s + 1\<close>: \<open>json_parse_fuel_enough\<close> shows that more fuel never changes the
    result on any input, so running out of fuel is never the cause of a rejection.
  The main result is the round trip \<open>json_parse (json_stringify j) = Some j\<close>, proved from
  the round trip of each token kind with the rest of the input generalised.
\<close>

subsection \<open>Values and the printer (JSON.stringify)\<close>

datatype json =
    JNull
  | JBool bool
  | JNum int
  | JStr string
  | JArr "json list"
  | JObj "(string \<times> json) list"
abbreviation dquote :: char where "dquote \<equiv> CHR 0x22"
abbreviation backslash :: char where "backslash \<equiv> CHR 0x5C"
definition hex_digit :: "nat \<Rightarrow> char" where
  "hex_digit n = ''0123456789abcdef'' ! (n mod 16)"
definition json_escape_char :: "char \<Rightarrow> string" where
  "json_escape_char c =
     (if c = dquote then [backslash, dquote]
      else if c = backslash then [backslash, backslash]
      else if c = CHR 0x08 then [backslash, CHR ''b'']
      else if c = CHR 0x09 then [backslash, CHR ''t'']
      else if c = CHR 0x0A then [backslash, CHR ''n'']
      else if c = CHR 0x0C then [backslash, CHR ''f'']
      else if c = CHR 0x0D then [backslash, CHR ''r'']
      else if of_char c < (32::nat)
        then [backslash, CHR ''u'', CHR ''0'', CHR ''0'', hex_digit (of_char c div 16), hex_digit (of_char c)]
      else [c])"
definition json_quote :: "string \<Rightarrow> string" where
  "json_quote s = dquote # concat (map json_escape_char s) @ [dquote]"
definition digit_char :: "nat \<Rightarrow> char" where
  "digit_char d = ''0123456789'' ! d"
fun nat_digits :: "nat \<Rightarrow> string" where
  "nat_digits n = (if n < 10 then [digit_char n] else nat_digits (n div 10) @ [digit_char (n mod 10)])"
definition show_int :: "int \<Rightarrow> string" where
  "show_int i = (if i < 0 then CHR ''-'' # nat_digits (nat (- i)) else nat_digits (nat i))"
fun join_commas :: "string list \<Rightarrow> string" where
  "join_commas [] = []"
| "join_commas [x] = x"
| "join_commas (x # xs) = x @ CHR '','' # join_commas xs"
fun json_stringify :: "json \<Rightarrow> string" where
  "json_stringify JNull = ''null''"
| "json_stringify (JBool b) = (if b then ''true'' else ''false'')"
| "json_stringify (JNum i) = show_int i"
| "json_stringify (JStr s) = json_quote s"
| "json_stringify (JArr xs) = CHR ''['' # join_commas (map json_stringify xs) @ '']''"
| "json_stringify (JObj kvs) =
     CHR ''{'' # join_commas (map (\<lambda>(k, v). json_quote k @ CHR '':'' # json_stringify v) kvs) @ ''}''"

subsection \<open>The parser (JSON.parse)\<close>

definition json_ws :: "char \<Rightarrow> bool" where
  "json_ws c \<longleftrightarrow> c \<in> set [CHR 0x20, CHR 0x09, CHR 0x0A, CHR 0x0D]"
definition is_digit :: "char \<Rightarrow> bool" where
  "is_digit c \<longleftrightarrow> 48 \<le> (of_char c :: nat) \<and> (of_char c :: nat) \<le> 57"
definition digit_val :: "char \<Rightarrow> nat" where
  "digit_val c = of_char c - 48"
fun parse_digits :: "nat \<Rightarrow> string \<Rightarrow> nat \<times> string" where
  "parse_digits n [] = (n, [])"
| "parse_digits n (c # cs) =
     (if is_digit c then parse_digits (10 * n + digit_val c) cs else (n, c # cs))"
definition parse_uint :: "string \<Rightarrow> (nat \<times> string) option" where
  "parse_uint s =
     (case s of
        [] \<Rightarrow> None
      | c # cs \<Rightarrow>
          if c = CHR ''0'' then Some (0, cs)
          else if is_digit c then Some (parse_digits (digit_val c) cs)
          else None)"
definition number_cont :: "string \<Rightarrow> bool" where
  "number_cont r \<longleftrightarrow> (case r of [] \<Rightarrow> False | c # _ \<Rightarrow> c \<in> set ''.eE'')"
definition skip_digits1 :: "string \<Rightarrow> string option" where
  "skip_digits1 s =
     (case s of [] \<Rightarrow> None | c # _ \<Rightarrow> if is_digit c then Some (dropWhile is_digit s) else None)"
definition skip_frac :: "string \<Rightarrow> string option" where
  "skip_frac s = (case s of c # cs \<Rightarrow> if c = CHR ''.'' then skip_digits1 cs else Some s | [] \<Rightarrow> Some s)"
definition skip_exp :: "string \<Rightarrow> string option" where
  "skip_exp s =
     (case s of
        c # cs \<Rightarrow>
          if c = CHR ''e'' \<or> c = CHR ''E'' then
            skip_digits1 (case cs of d # ds \<Rightarrow> if d = CHR ''+'' \<or> d = CHR ''-'' then ds else cs
                                  | [] \<Rightarrow> cs)
          else Some s
      | [] \<Rightarrow> Some s)"
definition parse_number :: "bool \<Rightarrow> string \<Rightarrow> (int \<times> string) option" where
  "parse_number lax s =
     (let (neg, s') = (case s of c # cs \<Rightarrow> if c = CHR ''-'' then (True, cs) else (False, s)
                               | [] \<Rightarrow> (False, s))
      in case parse_uint s' of
           None \<Rightarrow> None
         | Some (n, r) \<Rightarrow>
             if number_cont r then
               (if lax then
                  map_option (\<lambda>r'. (if neg then - int n else int n, r')) (Option.bind (skip_frac r) skip_exp)
                else None)
             else Some (if neg then - int n else int n, r))"
definition hex_val :: "char \<Rightarrow> nat option" where
  "hex_val c =
     (let n = (of_char c :: nat) in
      if 48 \<le> n \<and> n \<le> 57 then Some (n - 48)
      else if 97 \<le> n \<and> n \<le> 102 then Some (n - 87)
      else if 65 \<le> n \<and> n \<le> 70 then Some (n - 55)
      else None)"
definition hex4 :: "char \<Rightarrow> char \<Rightarrow> char \<Rightarrow> char \<Rightarrow> nat option" where
  "hex4 a b c d =
     (case (hex_val a, hex_val b, hex_val c, hex_val d) of
        (Some w, Some x, Some y, Some z) \<Rightarrow> Some (((w * 16 + x) * 16 + y) * 16 + z)
      | _ \<Rightarrow> None)"
definition unescape :: "char \<Rightarrow> char option" where
  "unescape e =
     (if e = dquote then Some dquote
      else if e = backslash then Some backslash
      else if e = CHR ''/'' then Some (CHR ''/'')
      else if e = CHR ''b'' then Some (CHR 0x08)
      else if e = CHR ''f'' then Some (CHR 0x0C)
      else if e = CHR ''n'' then Some (CHR 0x0A)
      else if e = CHR ''r'' then Some (CHR 0x0D)
      else if e = CHR ''t'' then Some (CHR 0x09)
      else None)"
fun parse_str_chars :: "bool \<Rightarrow> string \<Rightarrow> string \<Rightarrow> (string \<times> string) option" where
  "parse_str_chars lax acc [] = None"
| "parse_str_chars lax acc (c # cs) =
     (if c = dquote then Some (rev acc, cs)
      else if c = backslash then
        (case cs of
           [] \<Rightarrow> None
         | e # cs' \<Rightarrow>
             if e = CHR ''u'' then
               (case cs' of
                  h1 # h2 # h3 # h4 # r \<Rightarrow>
                    (case hex4 h1 h2 h3 h4 of
                       Some v \<Rightarrow> if v < 256 \<or> lax then parse_str_chars lax (char_of v # acc) r else None
                     | None \<Rightarrow> None)
                | _ \<Rightarrow> None)
             else
               (case unescape e of
                  Some d \<Rightarrow> parse_str_chars lax (d # acc) cs'
                | None \<Rightarrow> None))
      else if of_char c < (32::nat) then None
      else parse_str_chars lax (c # acc) cs)"
fun parse_value :: "bool \<Rightarrow> nat \<Rightarrow> string \<Rightarrow> (json \<times> string) option"
and parse_elems :: "bool \<Rightarrow> nat \<Rightarrow> json list \<Rightarrow> string \<Rightarrow> (json \<times> string) option"
and parse_members :: "bool \<Rightarrow> nat \<Rightarrow> (string \<times> json) list \<Rightarrow> string \<Rightarrow> (json \<times> string) option"
where
  "parse_value lax 0 s = None"
| "parse_value lax (Suc f) s =
     (case dropWhile json_ws s of
        [] \<Rightarrow> None
      | c # r \<Rightarrow>
          if c = CHR ''['' then
            (case dropWhile json_ws r of
               [] \<Rightarrow> None
             | d # r' \<Rightarrow> if d = CHR '']'' then Some (JArr [], r') else parse_elems lax f [] r)
          else if c = CHR ''{'' then
            (case dropWhile json_ws r of
               [] \<Rightarrow> None
             | d # r' \<Rightarrow> if d = CHR ''}'' then Some (JObj [], r') else parse_members lax f [] r)
          else if c = dquote then map_option (\<lambda>(str, r'). (JStr str, r')) (parse_str_chars lax [] r)
          else if c = CHR ''t'' then
            (if take 3 r = ''rue'' then Some (JBool True, drop 3 r) else None)
          else if c = CHR ''f'' then
            (if take 4 r = ''alse'' then Some (JBool False, drop 4 r) else None)
          else if c = CHR ''n'' then
            (if take 3 r = ''ull'' then Some (JNull, drop 3 r) else None)
          else map_option (\<lambda>(i, r'). (JNum i, r')) (parse_number lax (c # r)))"
| "parse_elems lax 0 acc s = None"
| "parse_elems lax (Suc f) acc s =
     (case parse_value lax f s of
        None \<Rightarrow> None
      | Some (v, r) \<Rightarrow>
          (case dropWhile json_ws r of
             [] \<Rightarrow> None
           | c # r' \<Rightarrow>
               if c = CHR '','' then parse_elems lax f (acc @ [v]) r'
               else if c = CHR '']'' then Some (JArr (acc @ [v]), r')
               else None))"
| "parse_members lax 0 acc s = None"
| "parse_members lax (Suc f) acc s =
     (case dropWhile json_ws s of
        [] \<Rightarrow> None
      | c # r \<Rightarrow>
          if c \<noteq> dquote then None
          else
            (case parse_str_chars lax [] r of
               None \<Rightarrow> None
             | Some (k, r1) \<Rightarrow>
                 (case dropWhile json_ws r1 of
                    [] \<Rightarrow> None
                  | d # r2 \<Rightarrow>
                      if d \<noteq> CHR '':'' then None
                      else
                        (case parse_value lax f r2 of
                           None \<Rightarrow> None
                         | Some (v, r3) \<Rightarrow>
                             (case dropWhile json_ws r3 of
                                [] \<Rightarrow> None
                              | e # r4 \<Rightarrow>
                                  if e = CHR '','' then parse_members lax f (acc @ [(k, v)]) r4
                                  else if e = CHR ''}'' then Some (JObj (acc @ [(k, v)]), r4)
                                  else None)))))"
definition json_parse :: "string \<Rightarrow> json option" where
  "json_parse s =
     (case parse_value False (Suc (2 * length s)) s of
        None \<Rightarrow> None
      | Some (j, r) \<Rightarrow> if dropWhile json_ws r = [] then Some j else None)"

text \<open>\<open>JSON.parse(s)\<close> returns (rather than throwing a \<open>SyntaxError\<close>) exactly when \<open>json_valid s\<close>.\<close>

definition json_valid :: "string \<Rightarrow> bool" where
  "json_valid s =
     (case parse_value True (Suc (2 * length s)) s of
        None \<Rightarrow> False
      | Some (j, r) \<Rightarrow> dropWhile json_ws r = [])"

subsection \<open>Auxiliary measures for the proofs\<close>

text \<open>
  \<open>json_weight\<close> bounds the fuel the parser spends on a printed value;
  \<open>value_end\<close> says what may follow a value in a printed document.
\<close>

definition digits_value :: "nat \<Rightarrow> string \<Rightarrow> nat" where
  "digits_value m ds = foldl (\<lambda>n c. 10 * n + digit_val c) m ds"

definition value_end :: "string \<Rightarrow> bool" where
  "value_end r \<longleftrightarrow> (case r of [] \<Rightarrow> True | c # _ \<Rightarrow> c \<in> set '',]}'' \<or> json_ws c)"

fun json_weight :: "json \<Rightarrow> nat" where
  "json_weight (JArr xs) = Suc (sum_list (map (\<lambda>x. Suc (json_weight x)) xs))"
| "json_weight (JObj kvs) = Suc (sum_list (map (\<lambda>(k, v). Suc (json_weight v)) kvs))"
| "json_weight _ = 0"

definition json_start :: "char \<Rightarrow> bool" where
  "json_start c \<longleftrightarrow> \<not> json_ws c \<and> c \<noteq> CHR '']'' \<and> c \<noteq> CHR ''}''"

definition json_member :: "string \<times> json \<Rightarrow> string" where
  "json_member kv = json_quote (fst kv) @ CHR '':'' # json_stringify (snd kv)"

subsection \<open>Round trip of the printer and the parser\<close>

lemma digit_char_props:
  assumes "d < 10"
  shows "is_digit (digit_char d) \<and> digit_val (digit_char d) = d"
proof -
  from assms have "d \<in> {0,1,2,3,4,5,6,7,8,9}" by auto
  then show ?thesis by (auto simp: digit_char_def is_digit_def digit_val_def)
qed
lemma hex_digit_val:
  assumes "n < 16"
  shows "hex_val (hex_digit n) = Some n"
proof -
  from assms have "n \<in> set [0..<16]" by simp
  moreover have "\<forall>k \<in> set [0..<16]. hex_val (hex_digit k) = Some k"
    by (simp add: hex_digit_def hex_val_def upt_rec)
  ultimately show ?thesis by blast
qed
lemma parse_str_chars_escape:
  "parse_str_chars lax acc (json_escape_char c @ r) = parse_str_chars lax (c # acc) r"
proof -
  have lt: "of_char c div 16 < (16::nat)" using nat_of_char_less_256 [of c] by linarith
  have md: "(of_char c :: nat) mod 16 < 16" by simp
  show ?thesis
  proof (cases "of_char c < (32::nat)")
    case True
    then show ?thesis
      using hex_digit_val [OF lt] hex_digit_val [OF md]
      by (auto simp: json_escape_char_def unescape_def hex4_def hex_val_def hex_digit_def)
  next
    case False
    then show ?thesis
      by (auto simp: json_escape_char_def unescape_def)
  qed
qed
lemma parse_str_chars_quoted:
  "parse_str_chars lax acc (concat (map json_escape_char s) @ dquote # r) = Some (rev acc @ s, r)"
  by (induction s arbitrary: acc) (simp_all add: parse_str_chars_escape)

lemma parse_str_chars_body [simp]:
  "parse_str_chars lax [] (concat (map json_escape_char s) @ dquote # r) = Some (s, r)"
  using parse_str_chars_quoted [of lax "[]" s r] by simp

lemma parse_digits_append:
  "\<forall>c\<in>set ds. is_digit c \<Longrightarrow> parse_digits m (ds @ r) = parse_digits (digits_value m ds) r"
  by (induction ds arbitrary: m) (simp_all add: digits_value_def)

lemma parse_digits_stop:
  "r = [] \<or> \<not> is_digit (hd r) \<Longrightarrow> parse_digits m r = (m, r)"
  by (cases r) auto

declare nat_digits.simps [simp del]

lemma nat_digits_props:
  "(\<forall>c\<in>set (nat_digits n). is_digit c) \<and> digits_value 0 (nat_digits n) = n \<and>
   (\<exists>c cs. nat_digits n = c # cs \<and> (c = CHR ''0'' \<longleftrightarrow> n = 0))"
proof (induction n rule: nat_digits.induct)
  case (1 n)
  show ?case
  proof (cases "n < 10")
    case True
    then show ?thesis
      using digit_char_props [OF True]
      by (auto simp: nat_digits.simps [of n] digits_value_def digit_val_def digit_char_def)
  next
    case False
    with "1.IH" have ih: "(\<forall>c\<in>set (nat_digits (n div 10)). is_digit c) \<and>
        digits_value 0 (nat_digits (n div 10)) = n div 10 \<and>
        (\<exists>c cs. nat_digits (n div 10) = c # cs \<and> (c = CHR ''0'' \<longleftrightarrow> n div 10 = 0))"
      by simp
    have d: "is_digit (digit_char (n mod 10)) \<and> digit_val (digit_char (n mod 10)) = n mod 10"
      by (rule digit_char_props) simp
    from False have "n div 10 \<noteq> 0" by simp
    with ih d False show ?thesis
      by (auto simp: nat_digits.simps [of n] digits_value_def)
  qed
qed

lemma value_end_stop: "value_end r \<Longrightarrow> (r = [] \<or> \<not> is_digit (hd r)) \<and> \<not> number_cont r"
  by (cases r) (auto simp: value_end_def is_digit_def number_cont_def json_ws_def)

lemma parse_uint_nat_digits:
  assumes "value_end r"
  shows "parse_uint (nat_digits n @ r) = Some (n, r)"
proof -
  obtain c cs where nd: "nat_digits n = c # cs" and z: "c = CHR ''0'' \<longleftrightarrow> n = 0"
    and dig: "\<forall>c\<in>set (c # cs). is_digit c" and val: "digits_value 0 (c # cs) = n"
    using nat_digits_props [of n] by auto
  show ?thesis
  proof (cases "n = 0")
    case True
    then have "nat_digits n = [CHR ''0'']"
      by (simp add: nat_digits.simps digit_char_def)
    then show ?thesis by (simp add: parse_uint_def True)
  next
    case False
    have "parse_digits (digit_val c) (cs @ r) = parse_digits n r"
      using dig val by (simp add: parse_digits_append digits_value_def)
    also have "\<dots> = (n, r)"
      using value_end_stop [OF assms] by (simp add: parse_digits_stop)
    finally show ?thesis
      using False z dig by (simp add: parse_uint_def nd)
  qed
qed

lemma show_int_start: "\<exists>c cs. show_int i = c # cs \<and> (c = CHR ''-'' \<or> is_digit c)"
  using nat_digits_props [of "nat i"] by (auto simp: show_int_def)

lemma parse_number_show_int:
  assumes "value_end r"
  shows "parse_number lax (show_int i @ r) = Some (i, r)"
proof (cases "i < 0")
  case True
  then show ?thesis
    using parse_uint_nat_digits [OF assms, of "nat (- i)"] value_end_stop [OF assms]
    by (simp add: parse_number_def show_int_def)
next
  case False
  obtain c cs where nd: "nat_digits (nat i) = c # cs" and dig: "is_digit c"
    using nat_digits_props [of "nat i"] by auto
  then have "c \<noteq> CHR ''-''" by (auto simp: is_digit_def)
  then show ?thesis
    using False nd parse_uint_nat_digits [OF assms, of "nat i"] value_end_stop [OF assms]
    by (simp add: parse_number_def show_int_def)
qed

lemma json_stringify_start: "\<exists>c cs. json_stringify j = c # cs \<and> json_start c"
proof (cases j)
  case (JNum i)
  then show ?thesis
    using show_int_start [of i] by (auto simp: json_start_def json_ws_def is_digit_def)
qed (auto simp: json_start_def json_ws_def json_quote_def)

lemma join_commas_Cons:
  "join_commas (a # as) = a @ (if as = [] then [] else CHR '','' # join_commas as)"
  by (cases as) auto

lemma parse_elems_stringify:
  assumes "xs \<noteq> []"
    and "\<forall>x\<in>set xs. \<forall>f r. json_weight x < f \<longrightarrow> value_end r \<longrightarrow>
           parse_value lax f (json_stringify x @ r) = Some (x, r)"
    and "sum_list (map (\<lambda>x. Suc (json_weight x)) xs) < f"
  shows "parse_elems lax f acc (join_commas (map json_stringify xs) @ CHR '']'' # r) =
           Some (JArr (acc @ xs), r)"
  using assms
proof (induction xs arbitrary: acc f)
  case Nil
  then show ?case by simp
next
  case (Cons x xs)
  then obtain f' where f: "f = Suc f'" by (cases f) auto
  show ?case
  proof (cases "xs = []")
    case True
    have "parse_value lax f' (json_stringify x @ CHR '']'' # r) = Some (x, CHR '']'' # r)"
      using Cons.prems True f by (simp add: value_end_def)
    then show ?thesis using True f by (simp add: json_ws_def)
  next
    case False
    let ?rest = "join_commas (map json_stringify xs) @ CHR '']'' # r"
    have "parse_value lax f' (json_stringify x @ CHR '','' # ?rest) = Some (x, CHR '','' # ?rest)"
      using Cons.prems f by (simp add: value_end_def)
    moreover have "parse_elems lax f' (acc @ [x]) ?rest = Some (JArr ((acc @ [x]) @ xs), r)"
      using Cons.prems False f by (intro Cons.IH) auto
    ultimately show ?thesis
      using False f by (simp add: join_commas_Cons json_ws_def)
  qed
qed

lemma json_stringify_JObj:
  "json_stringify (JObj kvs) = CHR ''{'' # join_commas (map json_member kvs) @ ''}''"
proof -
  have "(\<lambda>(k, v). json_quote k @ CHR '':'' # json_stringify v) = json_member"
    by (auto simp: json_member_def fun_eq_iff)
  then show ?thesis by simp
qed

lemma json_member_Pair:
  "json_member (k, v) @ r =
     dquote # concat (map json_escape_char k) @ dquote # CHR '':'' # json_stringify v @ r"
  by (simp add: json_member_def json_quote_def)

lemma json_member_start: "\<exists>cs. json_member kv = dquote # cs"
  by (simp add: json_member_def json_quote_def)

lemma parse_members_stringify:
  assumes "kvs \<noteq> []"
    and "\<forall>kv\<in>set kvs. \<forall>f r. json_weight (snd kv) < f \<longrightarrow> value_end r \<longrightarrow>
           parse_value lax f (json_stringify (snd kv) @ r) = Some (snd kv, r)"
    and "sum_list (map (\<lambda>(k, v). Suc (json_weight v)) kvs) < f"
  shows "parse_members lax f acc (join_commas (map json_member kvs) @ CHR ''}'' # r) =
           Some (JObj (acc @ kvs), r)"
  using assms
proof (induction kvs arbitrary: acc f)
  case Nil
  then show ?case by simp
next
  case (Cons kv kvs)
  obtain k v where kv: "kv = (k, v)" by (cases kv)
  from Cons.prems obtain f' where f: "f = Suc f'" by (cases f) auto
  show ?case
  proof (cases "kvs = []")
    case True
    have "parse_value lax f' (json_stringify v @ CHR ''}'' # r) = Some (v, CHR ''}'' # r)"
      using Cons.prems True f kv by (simp add: value_end_def)
    then show ?thesis
      using True f kv by (simp add: json_member_Pair json_ws_def)
  next
    case False
    let ?rest = "join_commas (map json_member kvs) @ CHR ''}'' # r"
    have "parse_value lax f' (json_stringify v @ CHR '','' # ?rest) = Some (v, CHR '','' # ?rest)"
      using Cons.prems f kv by (simp add: value_end_def)
    moreover have "parse_members lax f' (acc @ [(k, v)]) ?rest = Some (JObj ((acc @ [(k, v)]) @ kvs), r)"
      using Cons.prems False f kv by (intro Cons.IH) auto
    ultimately show ?thesis
      using False f kv by (simp add: join_commas_Cons json_member_Pair json_ws_def)
  qed
qed

lemma parse_value_stringify:
  "json_weight j < f \<Longrightarrow> value_end r \<Longrightarrow> parse_value lax f (json_stringify j @ r) = Some (j, r)"
proof (induction j arbitrary: f r)
  case JNull
  then show ?case by (cases f) (auto simp: json_ws_def)
next
  case (JBool b)
  then show ?case by (cases f) (auto simp: json_ws_def)
next
  case (JNum i)
  then obtain f' where f: "f = Suc f'" by (cases f) auto
  obtain c cs where st: "show_int i = c # cs" and c: "c = CHR ''-'' \<or> is_digit c"
    using show_int_start [of i] by blast
  have "c \<noteq> CHR ''['' \<and> c \<noteq> CHR ''{'' \<and> c \<noteq> dquote \<and> c \<noteq> CHR ''t'' \<and> c \<noteq> CHR ''f'' \<and>
        c \<noteq> CHR ''n'' \<and> \<not> json_ws c"
    using c by (auto simp: is_digit_def json_ws_def)
  then show ?case
    using parse_number_show_int [OF JNum.prems(2), of lax i] f st by simp
next
  case (JStr s)
  then show ?case
    by (cases f) (auto simp: json_ws_def json_quote_def)
next
  case (JArr xs)
  then obtain f' where f: "f = Suc f'" by (cases f) auto
  show ?case
  proof (cases xs)
    case Nil
    then show ?thesis using f by (simp add: json_ws_def)
  next
    case (Cons x xs')
    obtain c cs where st: "json_stringify x = c # cs" and c: "json_start c"
      using json_stringify_start by blast
    have "parse_elems lax f' [] (join_commas (map json_stringify xs) @ CHR '']'' # r) = Some (JArr xs, r)"
      using JArr f Cons parse_elems_stringify [of xs lax f' "[]" r] by auto
    then show ?thesis
      using f Cons st c by (simp add: join_commas_Cons json_start_def json_ws_def)
  qed
next
  case (JObj kvs)
  then obtain f' where f: "f = Suc f'" by (cases f) auto
  show ?case
  proof (cases kvs)
    case Nil
    then show ?thesis using f by (simp add: json_ws_def)
  next
    case (Cons kv kvs')
    obtain cs where st: "json_member kv = dquote # cs"
      using json_member_start by blast
    have "parse_members lax f' [] (join_commas (map json_member kvs) @ CHR ''}'' # r) = Some (JObj kvs, r)"
      using JObj f Cons parse_members_stringify [of kvs lax f' "[]" r] by fastforce
    then show ?thesis
      using f Cons st by (simp add: json_stringify_JObj join_commas_Cons json_ws_def
                           del: json_stringify.simps)
  qed
qed

lemma join_commas_length:
  "sum_list (map (\<lambda>y. Suc (length y)) ys) \<le> Suc (length (join_commas ys))"
  by (induction ys) (auto simp: join_commas_Cons)

lemma json_weight_le_length: "json_weight j \<le> length (json_stringify j)"
proof (induction j)
  case (JArr xs)
  have "sum_list (map (\<lambda>x. Suc (json_weight x)) xs)
          \<le> sum_list (map (\<lambda>y. Suc (length y)) (map json_stringify xs))"
    using JArr by (simp add: sum_list_mono)
  also have "\<dots> \<le> Suc (length (join_commas (map json_stringify xs)))"
    by (rule join_commas_length)
  finally show ?case by simp
next
  case (JObj kvs)
  have "sum_list (map (\<lambda>(k, v). Suc (json_weight v)) kvs)
          \<le> sum_list (map (\<lambda>y. Suc (length y)) (map json_member kvs))"
    using JObj by (force simp: json_member_def intro: sum_list_mono)
  also have "\<dots> \<le> Suc (length (join_commas (map json_member kvs)))"
    by (rule join_commas_length)
  finally show ?case by (simp add: json_stringify_JObj del: json_stringify.simps)
qed auto

lemma json_parse_stringify: "json_parse (json_stringify j) = Some j"
proof -
  have "json_weight j < Suc (2 * length (json_stringify j))"
    using json_weight_le_length [of j] by simp
  then have "parse_value False (Suc (2 * length (json_stringify j))) (json_stringify j @ []) = Some (j, [])"
    by (rule parse_value_stringify) (simp add: value_end_def)
  then show ?thesis by (simp add: json_parse_def)
qed

lemma json_valid_stringify: "json_valid (json_stringify j)"
proof -
  have "json_weight j < Suc (2 * length (json_stringify j))"
    using json_weight_le_length [of j] by simp
  then have "parse_value True (Suc (2 * length (json_stringify j))) (json_stringify j @ []) = Some (j, [])"
    by (rule parse_value_stringify) (simp add: value_end_def)
  then show ?thesis by (simp add: json_valid_def)
qed

text \<open>An array ends at its closing bracket, whatever follows it.\<close>

lemma parse_value_stringify_JArr:
  assumes "json_weight (JArr xs) < f"
  shows "parse_value lax f (json_stringify (JArr xs) @ r) = Some (JArr xs, r)"
proof -
  obtain f' where f: "f = Suc f'" using assms by (cases f) auto
  show ?thesis
  proof (cases xs)
    case Nil
    then show ?thesis using f by (simp add: json_ws_def)
  next
    case (Cons x xs')
    obtain c cs where st: "json_stringify x = c # cs" and c: "json_start c"
      using json_stringify_start by blast
    have "parse_elems lax f' [] (join_commas (map json_stringify xs) @ CHR '']'' # r) = Some (JArr xs, r)"
      using assms f Cons parse_elems_stringify [of xs lax f' "[]" r] parse_value_stringify by auto
    then show ?thesis
      using f Cons st c by (simp add: join_commas_Cons json_start_def json_ws_def)
  qed
qed

lemma json_valid_trailing:
  assumes "\<not> json_ws c"
  shows "\<not> json_valid (json_stringify (JArr xs) @ c # r)"
proof -
  let ?s = "json_stringify (JArr xs) @ c # r"
  have "json_weight (JArr xs) < Suc (2 * length ?s)"
    using json_weight_le_length [of "JArr xs"] by simp
  then have "parse_value True (Suc (2 * length ?s)) ?s = Some (JArr xs, c # r)"
    by (rule parse_value_stringify_JArr)
  then show ?thesis using assms by (simp add: json_valid_def)
qed

text \<open>
  C1. Round trip of \<open>JSON.stringify\<close> and \<open>JSON.parse\<close>: parsing the printed form of
  any JSON value, followed by any JSON whitespace, gives the value back.
\<close>

theorem json_roundtrip:
  assumes "\<forall>c\<in>set ws. json_ws c"
  shows "json_parse (json_stringify j @ ws) = Some j"
proof -
  have "json_weight j < Suc (2 * length (json_stringify j @ ws))"
    using json_weight_le_length [of j] by simp
  moreover have "value_end ws"
    using assms by (cases ws) (auto simp: value_end_def)
  ultimately have "parse_value False (Suc (2 * length (json_stringify j @ ws))) (json_stringify j @ ws) =
                   Some (j, ws)"
    by (rule parse_value_stringify)
  then show ?thesis
    using assms by (simp add: json_parse_def)
qed

theorem json_roundtrip_witness:
  "json_parse (json_stringify (JArr [JNum (-3), JStr ''a'', JObj [(''b'', JBool True)]]) @ '' '') =
   Some (JArr [JNum (-3), JStr ''a'', JObj [(''b'', JBool True)]])"
  by (rule json_roundtrip) (simp add: json_ws_def)


subsection \<open>The fuel of the parser is never the limit\<close>

text \<open>
  Every call of the parser that succeeds consumes input, and the fuel is spent at most
  twice per character consumed (once entering an array or object and once per element or
  member). With more than \<open>2 * length s\<close> units, the result no longer depends on the fuel.
\<close>


lemma dropWhile_Cons_shorter: "dropWhile P s = c # r \<Longrightarrow> length r < length s"
  using length_dropWhile_le [of P s] by simp

lemma parse_digits_shorter: "length (snd (parse_digits n s)) \<le> length s"
  by (induction n s rule: parse_digits.induct) auto

lemma parse_uint_shorter: "parse_uint s = Some (n, r) \<Longrightarrow> length r < length s"
  using parse_digits_shorter
  by (auto simp: parse_uint_def split: list.splits if_splits) (metis le_imp_less_Suc snd_conv)

lemma skip_digits1_shorter: "skip_digits1 s = Some r \<Longrightarrow> length r \<le> length s"
  by (auto simp: skip_digits1_def split: list.splits if_splits intro: le_SucI length_dropWhile_le)

lemma skip_frac_exp_shorter:
  "Option.bind (skip_frac r) skip_exp = Some r' \<Longrightarrow> length r' \<le> length r"
  by (fastforce simp: skip_frac_def skip_exp_def dest!: skip_digits1_shorter
                split: list.splits if_splits Option.bind_splits)

lemma parse_number_shorter: "parse_number lax s = Some (i, r) \<Longrightarrow> length r < length s"
  by (fastforce simp: parse_number_def dest!: parse_uint_shorter skip_frac_exp_shorter
                split: list.splits if_splits option.splits)

lemma parse_str_chars_shorter: "parse_str_chars lax acc s = Some (x, r) \<Longrightarrow> length r < length s"
proof (induction s arbitrary: acc rule: length_induct)
  case (1 s)
  then obtain c cs where s: "s = c # cs" by (cases s) auto
  have ih: "\<And>t acc'. parse_str_chars lax acc' t = Some (x, r) \<Longrightarrow> length t < length s \<Longrightarrow>
              length r < length t"
    using "1.IH" by blast
  from "1.prems" show ?case
    unfolding s by (auto split: if_split_asm list.split_asm option.split_asm dest!: ih simp: s)
qed


lemma parse_shorter:
  "(parse_value lax f s = Some (v, r) \<longrightarrow> length r < length s) \<and>
   (parse_elems lax f acc s = Some (v, r) \<longrightarrow> length r < length s) \<and>
   (parse_members lax f macc s = Some (v, r) \<longrightarrow> length r < length s)"
proof (induction f arbitrary: s acc macc v r)
  case (Suc f)
  have pv: "\<And>s v r. parse_value lax f s = Some (v, r) \<Longrightarrow> length r < length s"
    and pe: "\<And>s acc v r. parse_elems lax f acc s = Some (v, r) \<Longrightarrow> length r < length s"
    and pm: "\<And>s acc v r. parse_members lax f acc s = Some (v, r) \<Longrightarrow> length r < length s"
    using Suc.IH by blast+
  note short = dropWhile_Cons_shorter parse_str_chars_shorter parse_number_shorter
  show ?case
  proof (intro conjI impI)
    assume h: "parse_value lax (Suc f) s = Some (v, r)"
    then obtain c r0 where d: "dropWhile json_ws s = c # r0"
      by (cases "dropWhile json_ws s") auto
    from h d have "length r < length r0 \<or> length r \<le> length r0"
      by (auto split: if_split_asm list.split_asm option.split_asm dest!: pe pm short)
    then show "length r < length s" using dropWhile_Cons_shorter [OF d] by linarith
  next
    assume h: "parse_elems lax (Suc f) acc s = Some (v, r)"
    then obtain v0 r0 where p: "parse_value lax f s = Some (v0, r0)"
      by (auto split: option.split_asm)
    from h p have "length r < length r0"
      by (auto split: if_split_asm list.split_asm dest!: pe short)
    then show "length r < length s" using pv [OF p] by linarith
  next
    assume h: "parse_members lax (Suc f) macc s = Some (v, r)"
    then obtain c r0 where d: "dropWhile json_ws s = c # r0"
      by (cases "dropWhile json_ws s") auto
    from h d have "length r < length r0"
      by (auto split: if_split_asm list.split_asm option.split_asm dest!: pv pm short)
    then show "length r < length s" using dropWhile_Cons_shorter [OF d] by linarith
  qed
qed simp


lemma parse_fuel_step:
  "(2 * length s < f \<longrightarrow> parse_value lax (Suc f) s = parse_value lax f s) \<and>
   (Suc (2 * length s) < f \<longrightarrow> parse_elems lax (Suc f) acc s = parse_elems lax f acc s) \<and>
   (Suc (2 * length s) < f \<longrightarrow> parse_members lax (Suc f) macc s = parse_members lax f macc s)"
proof (induction f arbitrary: s acc macc)
  case (Suc g)
  have pv: "\<And>s. 2 * length s < g \<Longrightarrow> parse_value lax (Suc g) s = parse_value lax g s"
    and pe: "\<And>s acc. Suc (2 * length s) < g \<Longrightarrow> parse_elems lax (Suc g) acc s = parse_elems lax g acc s"
    and pm: "\<And>s macc. Suc (2 * length s) < g \<Longrightarrow>
               parse_members lax (Suc g) macc s = parse_members lax g macc s"
    using Suc.IH by blast+
  have sv: "\<And>s v r. parse_value lax g s = Some (v, r) \<Longrightarrow> length r < length s"
    using parse_shorter by blast
  show ?case
  proof (intro conjI impI)
    assume len: "2 * length s < Suc g"
    show "parse_value lax (Suc (Suc g)) s = parse_value lax (Suc g) s"
    proof (cases "dropWhile json_ws s")
      case Nil
      show ?thesis unfolding parse_value.simps(2) Nil list.case by (rule refl)
    next
      case (Cons c r)
      with len have h: "Suc (2 * length r) < g" using dropWhile_Cons_shorter [OF Cons] by linarith
      have e: "parse_elems lax (Suc g) [] r = parse_elems lax g [] r" using h by (rule pe)
      have m: "parse_members lax (Suc g) [] r = parse_members lax g [] r" using h by (rule pm)
      show ?thesis unfolding parse_value.simps(2) Cons list.case e m by (rule refl)
    qed
  next
    assume len: "Suc (2 * length s) < Suc g"
    then have e1: "parse_value lax (Suc g) s = parse_value lax g s" by (intro pv) simp
    show "parse_elems lax (Suc (Suc g)) acc s = parse_elems lax (Suc g) acc s"
    proof (cases "parse_value lax g s")
      case None
      then show ?thesis unfolding parse_elems.simps(2) e1 by simp
    next
      case (Some p)
      obtain v r0 where p: "p = (v, r0)" by (cases p)
      have r0: "length r0 < length s" using sv Some p by blast
      show ?thesis
      proof (cases "dropWhile json_ws r0")
        case Nil
        show ?thesis unfolding parse_elems.simps(2) e1 Some p option.case prod.case Nil list.case by (rule refl)
      next
        case (Cons c r')
        have "Suc (2 * length r') < g"
          using len r0 dropWhile_Cons_shorter [OF Cons] by linarith
        then have e2: "parse_elems lax (Suc g) (acc @ [v]) r' = parse_elems lax g (acc @ [v]) r'"
          by (rule pe)
        show ?thesis
          unfolding parse_elems.simps(2) [of lax "Suc g" acc s] parse_elems.simps(2) [of lax g acc s]
            e1 Some p option.case prod.case Cons list.case e2 by (rule refl)
      qed
    qed
  next
    assume len: "Suc (2 * length s) < Suc g"
    note U = parse_members.simps(2) [of lax "Suc g" macc s] parse_members.simps(2) [of lax g macc s]
    show "parse_members lax (Suc (Suc g)) macc s = parse_members lax (Suc g) macc s"
    proof (cases "dropWhile json_ws s")
      case (Cons c r)
      have lr: "length r < length s" using dropWhile_Cons_shorter [OF Cons] .
      show ?thesis
      proof (cases "c \<noteq> dquote \<or> parse_str_chars lax [] r = None")
        case True
        then show ?thesis using \<open>dropWhile json_ws s = c # r\<close> unfolding U by auto
      next
        case False
        then obtain k r1 where c: "c = dquote" and k: "parse_str_chars lax [] r = Some (k, r1)" by auto
        have r1: "length r1 < length r" using parse_str_chars_shorter [OF k] .
        show ?thesis
        proof (cases "dropWhile json_ws r1")
          case (Cons d r2)
          have r2: "length r2 < length r1" using dropWhile_Cons_shorter [OF Cons] .
          then have e1: "parse_value lax (Suc g) r2 = parse_value lax g r2"
            using len lr r1 by (intro pv) linarith
          have rest: "parse_members lax (Suc g) (macc @ [(k, v)]) r4 = parse_members lax g (macc @ [(k, v)]) r4"
            if "parse_value lax g r2 = Some (v, r3)" and "dropWhile json_ws r3 = e # r4" for v r3 e r4
          proof -
            from that have "length r4 < length r2"
              using sv dropWhile_Cons_shorter by fastforce
            then show ?thesis using len lr r1 r2 by (intro pm) linarith
          qed
          note d1 = \<open>dropWhile json_ws s = c # r\<close> and d2 = Cons
          show ?thesis
          proof (cases "parse_value lax g r2")
            case None
            show ?thesis unfolding U d1 list.case c k option.case prod.case d2 e1 None by simp
          next
            case (Some p)
            obtain v r3 where p: "p = (v, r3)" by (cases p)
            show ?thesis
            proof (cases "dropWhile json_ws r3")
              case Nil
              show ?thesis
                unfolding U d1 list.case c k option.case prod.case d2 e1 Some p Nil by (rule refl)
            next
              case (Cons e r4)
              have eq: "parse_members lax (Suc g) (macc @ [(k, v)]) r4 =
                        parse_members lax g (macc @ [(k, v)]) r4"
                using Some p Cons by (intro rest) simp_all
              show ?thesis
                unfolding U d1 list.case c k option.case prod.case d2 e1 Some p Cons eq by (rule refl)
            qed
          qed
        qed (simp only: U \<open>dropWhile json_ws s = c # r\<close> list.case c k option.case prod.case
                        if_False if_True simp_thms)
      qed
    next
      case Nil
      show ?thesis
        by (simp only: U Nil list.case)
    qed
  qed
qed simp


lemma parse_value_fuel_mono: "2 * length s < f \<Longrightarrow> parse_value lax (f + k) s = parse_value lax f s"
proof (induction k)
  case (Suc k)
  then have "2 * length s < f + k" by simp
  then have "parse_value lax (Suc (f + k)) s = parse_value lax (f + k) s"
    using parse_fuel_step by blast
  with Suc show ?case by simp
qed simp

text \<open>
  C16. \<open>json_parse\<close> is the parser without a bound: on every input, giving the recursive
  descent any amount of fuel beyond the \<open>2 * length s + 1\<close> units \<open>json_parse\<close> uses gives
  the same result. So the parser terminates on every input, and a rejection is always a
  syntax error, never an exhausted bound.
\<close>

theorem json_parse_fuel_enough:
  assumes "Suc (2 * length s) \<le> f"
  shows "json_parse s =
           (case parse_value False f s of
              None \<Rightarrow> None
            | Some (j, r) \<Rightarrow> if dropWhile json_ws r = [] then Some j else None)"
proof -
  obtain k where f: "f = Suc (2 * length s) + k" using assms le_Suc_ex by blast
  have "parse_value False (Suc (2 * length s) + k) s = parse_value False (Suc (2 * length s)) s"
    by (rule parse_value_fuel_mono) simp
  then show ?thesis by (simp add: json_parse_def f)
qed

theorem json_parse_fuel_enough_witness:
  "json_parse ''[[1],2]'' =
     (case parse_value False 100 ''[[1],2]'' of
        None \<Rightarrow> None
      | Some (j, r) \<Rightarrow> if dropWhile json_ws r = [] then Some j else None)"
  by (rule json_parse_fuel_enough) simp

end
