(* ===== verification/Todo_Item.thy ===== *)
theory Todo_Item
  imports Todo_Prelude
begin

text \<open>
  A task (the object literal built in \<open>addTodo\<close>, \<open>src/app.js\<close> lines 50--54) and the
  \<open>TodoItem\<close> component (lines 2--15), which renders one task and emits
  \<open>toggle-todo\<close> or \<open>delete-todo\<close> with the task's \<open>id\<close> when one of its two buttons
  is clicked. The record field names carry a \<open>todo_\<close> prefix where the source's names
  (\<open>id\<close>, \<open>text\<close>) are taken in Isabelle.
\<close>

record todo =
  todo_id :: int
  todo_text :: string
  completed :: bool

text \<open>
  The caption of the complete button (line 9): the source's Chinese captions for
  ``complete'' (an open task) and ``undo completion'' (a completed task).
\<close>

datatype item_label = Label_Complete | Label_Undo

text \<open>The two events the component emits, with their payload.\<close>

datatype item_event = Toggle_todo int | Delete_todo int

text \<open>What the template of \<open>TodoItem\<close> shows for a task.\<close>

record item_view =
  li_completed :: bool
  task_text :: string
  complete_btn :: item_label

definition render_item :: "todo \<Rightarrow> item_view" where
  "render_item t =
     \<lparr>li_completed = completed t,
      task_text = todo_text t,
      complete_btn = (if completed t then Label_Undo else Label_Complete)\<rparr>"

definition click_complete :: "todo \<Rightarrow> item_event" where
  "click_complete t = Toggle_todo (todo_id t)"

definition click_delete :: "todo \<Rightarrow> item_event" where
  "click_delete t = Delete_todo (todo_id t)"

end
