(* ===== verification/Todo_Storage.thy ===== *)
theory Todo_Storage
  imports Json Todo_Item
begin

text \<open>
  The persisted form of the task list: \<open>localStorage\<close> as a map from keys to strings,
  the JSON document \<open>saveTodos\<close> writes under the key \<open>'todos'\<close> (\<open>src/app.js\<close>
  line 79, each task an object with the keys of the literal on lines 50--54, in that
  order) and the expression \<open>JSON.parse(localStorage.getItem('todos') || '[]')\<close> that
  \<open>data\<close> evaluates when the page loads (line 24).
  The load has three outcomes. When the stored text is not JSON, \<open>JSON.parse\<close> throws a
  \<open>SyntaxError\<close> and \<open>data\<close> with it: \<open>Inl SyntaxError\<close>. When it is a document in the
  form the page itself writes, the list is loaded: \<open>Inr ts\<close>. Any other JSON document
  (\<open>{}\<close>, \<open>[1]\<close>, a task with its keys in another order or with a fractional id) is
  parsed without error and line 24 assigns the parsed value to \<open>todos\<close> as it is; the
  computed properties and methods would then run on that value with JavaScript's dynamic
  semantics, which this model does not follow. That outcome is \<open>Inl Outside_model\<close>: it
  marks the boundary of the model and is not an error the code raises.
\<close>

type_synonym storage = "string \<rightharpoonup> string"

datatype load_error = SyntaxError | Outside_model

definition json_of_todo :: "todo \<Rightarrow> json" where
  "json_of_todo t =
     JObj [(''id'', JNum (todo_id t)), (''text'', JStr (todo_text t)),
           (''completed'', JBool (completed t))]"

definition json_of_todos :: "todo list \<Rightarrow> json" where
  "json_of_todos ts = JArr (map json_of_todo ts)"

text \<open>A parsed object is a task in the page's own form when it is exactly \<open>json_of_todo\<close> of it.\<close>

definition todo_of_json :: "json \<Rightarrow> todo option" where
  "todo_of_json j =
     (case j of
        JObj [(k1, JNum i), (k2, JStr x), (k3, JBool b)] \<Rightarrow>
          if k1 = ''id'' \<and> k2 = ''text'' \<and> k3 = ''completed''
          then Some \<lparr>todo_id = i, todo_text = x, completed = b\<rparr> else None
      | _ \<Rightarrow> None)"

definition todos_of_json :: "json \<Rightarrow> todo list option" where
  "todos_of_json j = (case j of JArr xs \<Rightarrow> those (map todo_of_json xs) | _ \<Rightarrow> None)"

text \<open>\<open>localStorage.getItem('todos') || '[]'\<close>: a missing key and the empty string are falsy.\<close>

definition stored_text :: "storage \<Rightarrow> string" where
  "stored_text st = (case st ''todos'' of None \<Rightarrow> ''[]'' | Some v \<Rightarrow> if v = [] then ''[]'' else v)"

definition load_todos :: "storage \<Rightarrow> load_error + todo list" where
  "load_todos st =
     (if \<not> json_valid (stored_text st) then Inl SyntaxError
      else
        (case json_parse (stored_text st) of
           None \<Rightarrow> Inl Outside_model
         | Some j \<Rightarrow> (case todos_of_json j of None \<Rightarrow> Inl Outside_model | Some ts \<Rightarrow> Inr ts)))"

definition store_todos :: "todo list \<Rightarrow> storage \<Rightarrow> storage" where
  "store_todos ts st = st(''todos'' \<mapsto> json_stringify (json_of_todos ts))"

lemma todo_of_json_iff: "todo_of_json j = Some t \<longleftrightarrow> j = json_of_todo t"
  by (auto simp: todo_of_json_def json_of_todo_def split: json.splits list.splits prod.splits if_splits)

lemma those_map_iff:
  assumes "\<And>x y. f x = Some y \<longleftrightarrow> x = g y"
  shows "those (map f xs) = Some ys \<longleftrightarrow> xs = map g ys"
proof -
  have fg: "\<And>y. f (g y) = Some y" using assms by blast
  have inj: "\<And>y z. g y = g z \<Longrightarrow> y = z" using fg by (metis option.inject)
  show ?thesis
  proof (induction xs arbitrary: ys)
    case (Cons x xs)
    show ?case by (cases ys) (auto simp: assms Cons.IH fg dest: inj split: option.splits)
  qed auto
qed

lemma todos_of_json_iff: "todos_of_json j = Some ts \<longleftrightarrow> j = json_of_todos ts"
  by (auto simp: todos_of_json_def json_of_todos_def those_map_iff [OF todo_of_json_iff]
           split: json.splits)

lemma todos_of_json_of_todos [simp]: "todos_of_json (json_of_todos ts) = Some ts"
  by (simp add: todos_of_json_iff)

text \<open>Writing a list and reading it back gives the same list: persist/hydrate round trip.\<close>

lemma stored_text_store_todos:
  "stored_text (store_todos ts st) = json_stringify (json_of_todos ts)"
  by (simp add: stored_text_def store_todos_def json_of_todos_def)

lemma load_store_todos: "load_todos (store_todos ts st) = Inr ts"
  by (simp add: load_todos_def stored_text_store_todos json_parse_stringify json_valid_stringify
           del: json_stringify.simps)

text \<open>
  C2. Persist/hydrate round trip: after \<open>saveTodos\<close> writes a list, the expression that
  \<open>data\<close> evaluates on the next page load reads back exactly that list, in order, and
  every other key of \<open>localStorage\<close> is left as it was.
\<close>

theorem reload_after_save:
  "load_todos (store_todos ts st) = Inr ts \<and> (\<forall>k. k \<noteq> ''todos'' \<longrightarrow> store_todos ts st k = st k)"
  using load_store_todos [of ts st] by (simp add: store_todos_def)

theorem reload_after_save_witness:
  "load_todos (store_todos [\<lparr>todo_id = 7, todo_text = ''a'', completed = True\<rparr>] Map.empty) =
     Inr [\<lparr>todo_id = 7, todo_text = ''a'', completed = True\<rparr>] \<and>
   store_todos [\<lparr>todo_id = 7, todo_text = ''a'', completed = True\<rparr>] Map.empty ''theme'' = None"
  using reload_after_save [of "[\<lparr>todo_id = 7, todo_text = ''a'', completed = True\<rparr>]" Map.empty]
  by simp

end
