(* ===== verification/Todo_List.thy ===== *)
theory Todo_List
  imports Js_String Todo_Storage
begin

text \<open>
  The \<open>TodoList\<close> page component of \<open>src/app.js\<close> (lines 18--139): its reactive data
  (\<open>todos\<close>, the input field \<open>newTodo\<close>, the selected \<open>filter\<close>), its computed
  properties and its methods, with \<open>localStorage\<close> carried along in the same state
  record because \<open>saveTodos\<close> writes it. Each method is a function from the state before
  the call to the state after it. \<open>Date.now()\<close>, read by \<open>addTodo\<close>, is a parameter.
  The filter is kept as the string the code stores; \<open>setFilter\<close> accepts any string.
  \<open>dispatch\<close> wires the template's events to the methods (lines 86--130).
\<close>

record state =
  todos :: "todo list"
  newTodo :: string
  filter_sel :: string
  local_storage :: storage

subsection \<open>Creation: data()\<close>

definition data :: "storage \<Rightarrow> load_error + state" where
  "data st =
     (case load_todos st of
        Inl e \<Rightarrow> Inl e
      | Inr ts \<Rightarrow> Inr \<lparr>todos = ts, newTodo = [], filter_sel = ''all'', local_storage = st\<rparr>)"

subsection \<open>Computed properties\<close>

definition filteredTodos :: "state \<Rightarrow> todo list" where
  "filteredTodos s =
     (if filter_sel s = ''active'' then filter (\<lambda>t. \<not> completed t) (todos s)
      else if filter_sel s = ''completed'' then filter (\<lambda>t. completed t) (todos s)
      else todos s)"

definition activeTodoCount :: "state \<Rightarrow> nat" where
  "activeTodoCount s = length (filter (\<lambda>t. \<not> completed t) (todos s))"

definition completedTodoCount :: "state \<Rightarrow> nat" where
  "completedTodoCount s = length (filter (\<lambda>t. completed t) (todos s))"

subsection \<open>Methods\<close>

definition saveTodos :: "state \<Rightarrow> state" where
  "saveTodos s = s\<lparr>local_storage := store_todos (todos s) (local_storage s)\<rparr>"

definition addTodo :: "int \<Rightarrow> state \<Rightarrow> state" where
  "addTodo now s =
     (if js_truthy_str (js_trim (newTodo s)) then
        saveTodos (s\<lparr>todos := todos s @ [\<lparr>todo_id = now, todo_text = newTodo s, completed = False\<rparr>],
                     newTodo := []\<rparr>)
      else s)"

definition toggleTodo :: "int \<Rightarrow> state \<Rightarrow> state" where
  "toggleTodo i s =
     (case find (\<lambda>t. todo_id t = i) (todos s) of
        None \<Rightarrow> s
      | Some _ \<Rightarrow>
          saveTodos (s\<lparr>todos := update_first (\<lambda>t. todo_id t = i)
                                   (\<lambda>t. t\<lparr>completed := \<not> completed t\<rparr>) (todos s)\<rparr>))"

definition deleteTodo :: "int \<Rightarrow> state \<Rightarrow> state" where
  "deleteTodo i s = saveTodos (s\<lparr>todos := filter (\<lambda>t. todo_id t \<noteq> i) (todos s)\<rparr>)"

definition clearCompleted :: "state \<Rightarrow> state" where
  "clearCompleted s = saveTodos (s\<lparr>todos := filter (\<lambda>t. \<not> completed t) (todos s)\<rparr>)"

definition setFilter :: "string \<Rightarrow> state \<Rightarrow> state" where
  "setFilter f s = s\<lparr>filter_sel := f\<rparr>"

subsection \<open>Events of the template\<close>

text \<open>
  The template's events: typing in the input (\<open>v-model="newTodo"\<close>), Enter or the add
  button (\<open>addTodo\<close>, at the current \<open>Date.now()\<close>), the two buttons of an item
  (\<open>toggle-todo\<close>, \<open>delete-todo\<close>), the clear button and the filter buttons.
\<close>

datatype event =
    Input string
  | Add int
  | Toggle int
  | Delete int
  | Clear
  | Select string

fun dispatch :: "state \<Rightarrow> event \<Rightarrow> state" where
  "dispatch s (Input v) = s\<lparr>newTodo := v\<rparr>"
| "dispatch s (Add now) = addTodo now s"
| "dispatch s (Toggle i) = toggleTodo i s"
| "dispatch s (Delete i) = deleteTodo i s"
| "dispatch s Clear = clearCompleted s"
| "dispatch s (Select f) = setFilter f s"

text \<open>\<open>@toggle-todo="toggleTodo"\<close>, \<open>@delete-todo="deleteTodo"\<close>: the events of an item reach the page.\<close>

fun item_dispatch :: "item_event \<Rightarrow> event" where
  "item_dispatch (Toggle_todo i) = Toggle i"
| "item_dispatch (Delete_todo i) = Delete i"

fun run :: "state \<Rightarrow> event list \<Rightarrow> state" where
  "run s [] = s"
| "run s (e # es) = run (dispatch s e) es"

text \<open>A fresh page reload would restore exactly the list in memory.\<close>

definition persisted :: "state \<Rightarrow> bool" where
  "persisted s \<longleftrightarrow> load_todos (local_storage s) = Inr (todos s)"

declare saveTodos_def [todo_ops] addTodo_def [todo_ops] toggleTodo_def [todo_ops]
  deleteTodo_def [todo_ops] clearCompleted_def [todo_ops] setFilter_def [todo_ops]

subsection \<open>Shared lemmas\<close>

lemma saveTodos_simps [simp]:
  "todos (saveTodos s) = todos s" "newTodo (saveTodos s) = newTodo s"
  "filter_sel (saveTodos s) = filter_sel s"
  "local_storage (saveTodos s) = store_todos (todos s) (local_storage s)"
  by (simp_all add: saveTodos_def)

lemma persisted_saveTodos [simp]: "persisted (saveTodos s)"
  by (simp add: persisted_def load_store_todos)

lemma toggle_flip_simps [simp]:
  "todo_id (t\<lparr>completed := b\<rparr>) = todo_id t" "todo_text (t\<lparr>completed := b\<rparr>) = todo_text t"
  by simp_all

lemma toggleTodo_found:
  "find (\<lambda>t. todo_id t = i) (todos s) = Some t \<Longrightarrow>
   toggleTodo i s = saveTodos (s\<lparr>todos := update_first (\<lambda>t. todo_id t = i)
                                 (\<lambda>t. t\<lparr>completed := \<not> completed t\<rparr>) (todos s)\<rparr>)"
  by (simp add: toggleTodo_def)

lemma toggleTodo_missing: "find (\<lambda>t. todo_id t = i) (todos s) = None \<Longrightarrow> toggleTodo i s = s"
  by (simp add: toggleTodo_def)

lemma dispatch_cases_todos:
  "todos (dispatch s e) = todos s \<or>
   local_storage (dispatch s e) = store_todos (todos (dispatch s e)) (local_storage s)"
  by (cases e) (auto simp: todo_ops split: option.splits)

lemma dispatch_persisted: "persisted s \<Longrightarrow> persisted (dispatch s e)"
  by (cases e) (auto simp: persisted_def todo_ops load_store_todos split: option.splits)

subsection \<open>Properties of the operations\<close>

text \<open>
  C3. Every sequence of events of the page keeps the stored list in step with the list in
  memory: if reloading the page would restore the current list before the events, it
  would after each of them.
\<close>

theorem run_keeps_persisted: "persisted s \<Longrightarrow> persisted (run s es)"
proof (induction es arbitrary: s)
  case (Cons e es)
  then show ?case by (simp add: dispatch_persisted)
qed simp

theorem run_keeps_persisted_witness:
  "persisted \<lparr>todos = [], newTodo = [], filter_sel = ''all'', local_storage = Map.empty\<rparr> \<and>
   persisted (run \<lparr>todos = [], newTodo = [], filter_sel = ''all'', local_storage = Map.empty\<rparr>
                  [Input ''buy milk'', Add 1, Toggle 1, Delete 2])"
proof -
  have h: "persisted \<lparr>todos = [], newTodo = [], filter_sel = ''all'', local_storage = Map.empty\<rparr>"
    by code_simp
  show ?thesis
    using run_keeps_persisted [OF h, of "[Input ''buy milk'', Add 1, Toggle 1, Delete 2]"] h
    by simp
qed

text \<open>
  C4. \<open>addTodo\<close> with an input that is not all whitespace appends one open task, with the
  current time as its id and the input as its text, clears the input field and writes the
  new list to \<open>localStorage\<close>.
\<close>

theorem addTodo_appends:
  assumes "\<exists>c\<in>set (newTodo s). \<not> js_whitespace c"
  shows "todos (addTodo now s) =
           todos s @ [\<lparr>todo_id = now, todo_text = newTodo s, completed = False\<rparr>] \<and>
         newTodo (addTodo now s) = [] \<and> filter_sel (addTodo now s) = filter_sel s \<and>
         local_storage (addTodo now s) = store_todos (todos (addTodo now s)) (local_storage s)"
  using assms by (auto simp: addTodo_def js_truthy_str_def)

theorem addTodo_appends_witness:
  "todos (addTodo 5 \<lparr>todos = [], newTodo = '' milk'', filter_sel = ''all'', local_storage = Map.empty\<rparr>) =
     [\<lparr>todo_id = 5, todo_text = '' milk'', completed = False\<rparr>]"
proof -
  have h: "\<exists>c\<in>set (newTodo \<lparr>todos = [], newTodo = '' milk'', filter_sel = ''all'',
                               local_storage = Map.empty\<rparr>). \<not> js_whitespace c"
    by (simp add: js_whitespace_def)
  show ?thesis using addTodo_appends [OF h, of 5] by simp
qed

text \<open>
  C5. \<open>addTodo\<close> on an empty or whitespace-only input does nothing: no task, no write to
  \<open>localStorage\<close>, and the input keeps its text.
\<close>

theorem addTodo_blank_noop: "\<forall>c\<in>set (newTodo s). js_whitespace c \<Longrightarrow> addTodo now s = s"
  by (simp add: addTodo_def js_truthy_str_def)

theorem addTodo_blank_noop_witness:
  "addTodo 5 \<lparr>todos = [], newTodo = '' \<newline> '', filter_sel = ''all'', local_storage = Map.empty\<rparr> =
   \<lparr>todos = [], newTodo = '' \<newline> '', filter_sel = ''all'', local_storage = Map.empty\<rparr>"
  by (rule addTodo_blank_noop) (simp add: js_whitespace_def)

text \<open>
  C6. \<open>toggleTodo\<close> changes the page exactly when a task has the id. When none has, it
  is a no-op: the list, the input, the filter and \<open>localStorage\<close> stay as they were (the
  specification's "persistence write only if found"). When one has, its completion flips,
  so the state changes.
\<close>

theorem toggleTodo_changes_iff_found: "toggleTodo i s = s \<longleftrightarrow> i \<notin> set (map todo_id (todos s))"
proof (cases "find (\<lambda>t. todo_id t = i) (todos s)")
  case None
  then have "i \<notin> set (map todo_id (todos s))" by (auto simp: find_None_iff)
  with None show ?thesis by (simp add: toggleTodo_missing)
next
  case (Some t)
  then have "t \<in> set (todos s) \<and> todo_id t = i" by (simp add: find_Some_iff) (metis nth_mem)
  then have mem: "i \<in> set (map todo_id (todos s))" by force
  have "t\<lparr>completed := \<not> completed t\<rparr> \<noteq> t"
  proof
    assume "t\<lparr>completed := \<not> completed t\<rparr> = t"
    then have "completed (t\<lparr>completed := \<not> completed t\<rparr>) = completed t" by simp
    then show False by simp
  qed
  then have "update_first (\<lambda>t. todo_id t = i) (\<lambda>t. t\<lparr>completed := \<not> completed t\<rparr>) (todos s) \<noteq> todos s"
    by (rule update_first_changes [OF Some])
  then have "todos (toggleTodo i s) \<noteq> todos s"
    using Some by (simp add: toggleTodo_found)
  with mem show ?thesis by auto
qed

text \<open>
  C7. When the ids are distinct, \<open>toggleTodo i\<close> flips the completion of the task with id
  \<open>i\<close> and leaves every other task as it was, in the same order.
\<close>

theorem toggleTodo_flips_only_match:
  assumes "distinct (map todo_id (todos s))"
  shows "todos (toggleTodo i s) =
           map (\<lambda>t. if todo_id t = i then t\<lparr>completed := \<not> completed t\<rparr> else t) (todos s)"
proof (cases "find (\<lambda>t. todo_id t = i) (todos s)")
  case None
  then have "\<forall>t\<in>set (todos s). todo_id t \<noteq> i" by (simp add: find_None_iff)
  then show ?thesis using None by (simp add: toggleTodo_missing map_idI)
next
  case (Some t)
  then show ?thesis using assms by (simp add: toggleTodo_found update_first_distinct)
qed

theorem toggleTodo_flips_only_match_witness:
  "todos (toggleTodo 2 \<lparr>todos = [\<lparr>todo_id = 1, todo_text = ''a'', completed = False\<rparr>,
                              \<lparr>todo_id = 2, todo_text = ''b'', completed = False\<rparr>],
                     newTodo = [], filter_sel = ''all'', local_storage = Map.empty\<rparr>) =
   [\<lparr>todo_id = 1, todo_text = ''a'', completed = False\<rparr>,
    \<lparr>todo_id = 2, todo_text = ''b'', completed = True\<rparr>]"
  by (subst toggleTodo_flips_only_match) simp_all

text \<open>
  C8. When the ids are distinct, \<open>deleteTodo i\<close> removes exactly the task with id \<open>i\<close>:
  the tasks before and after it stay, in order.
\<close>

theorem deleteTodo_removes_exactly:
  assumes "distinct (map todo_id (todos s))" and "todos s = ys @ t # zs" and "todo_id t = i"
  shows "todos (deleteTodo i s) = ys @ zs"
proof -
  from assms(1,2) have "todo_id t \<notin> todo_id ` set ys \<union> todo_id ` set zs" by simp
  then have "\<forall>u\<in>set ys \<union> set zs. todo_id u \<noteq> i" using assms(3) by blast
  then show ?thesis
    using assms(2,3) by (simp add: deleteTodo_def filter_id_conv)
qed

theorem deleteTodo_removes_exactly_witness:
  "todos (deleteTodo 2 \<lparr>todos = [\<lparr>todo_id = 1, todo_text = ''a'', completed = False\<rparr>,
                              \<lparr>todo_id = 2, todo_text = ''b'', completed = True\<rparr>,
                              \<lparr>todo_id = 3, todo_text = ''c'', completed = False\<rparr>],
                     newTodo = [], filter_sel = ''all'', local_storage = Map.empty\<rparr>) =
   [\<lparr>todo_id = 1, todo_text = ''a'', completed = False\<rparr>,
    \<lparr>todo_id = 3, todo_text = ''c'', completed = False\<rparr>]"
proof -
  let ?a = "\<lparr>todo_id = 1, todo_text = ''a'', completed = False\<rparr>"
  let ?b = "\<lparr>todo_id = 2, todo_text = ''b'', completed = True\<rparr>"
  let ?c = "\<lparr>todo_id = 3, todo_text = ''c'', completed = False\<rparr>"
  let ?s = "\<lparr>todos = [?a, ?b, ?c], newTodo = [], filter_sel = ''all'', local_storage = Map.empty\<rparr>"
  show ?thesis using deleteTodo_removes_exactly [of ?s "[?a]" ?b "[?c]" 2] by simp
qed

text \<open>
  C9. \<open>deleteTodo\<close> of an id that no task has leaves the list unchanged, and still writes
  it to \<open>localStorage\<close> (the write is unconditional in the code).
\<close>

theorem deleteTodo_unknown_id:
  assumes "\<forall>t\<in>set (todos s). todo_id t \<noteq> i"
  shows "todos (deleteTodo i s) = todos s \<and>
         local_storage (deleteTodo i s) = store_todos (todos s) (local_storage s)"
  using assms by (simp add: deleteTodo_def filter_id_conv)

theorem deleteTodo_unknown_id_witness:
  "todos (deleteTodo 9 \<lparr>todos = [\<lparr>todo_id = 1, todo_text = ''a'', completed = False\<rparr>],
                     newTodo = [], filter_sel = ''all'', local_storage = Map.empty\<rparr>) =
   [\<lparr>todo_id = 1, todo_text = ''a'', completed = False\<rparr>]"
  using deleteTodo_unknown_id [of "\<lparr>todos = [\<lparr>todo_id = 1, todo_text = ''a'', completed = False\<rparr>],
                     newTodo = [], filter_sel = ''all'', local_storage = Map.empty\<rparr>" 9]
  by simp

text \<open>
  C10. \<open>clearCompleted\<close> removes every completed task and keeps the open ones in their
  order: afterwards no task is completed and the number of open tasks is unchanged.
\<close>

theorem clearCompleted_effect:
  "todos (clearCompleted s) = filter (\<lambda>t. \<not> completed t) (todos s) \<and>
   completedTodoCount (clearCompleted s) = 0 \<and>
   activeTodoCount (clearCompleted s) = activeTodoCount s"
  by (simp add: clearCompleted_def completedTodoCount_def activeTodoCount_def filter_empty_conv)

text \<open>
  C11. The filtered view is the list itself under \<open>'all'\<close> (and under any other string
  than \<open>'active'\<close> and \<open>'completed'\<close>); under \<open>'active'\<close> and \<open>'completed'\<close> it is the
  open and the completed tasks, each in list order, and the two views together hold every
  task exactly once.
\<close>

theorem filteredTodos_views:
  "subseq (filteredTodos s) (todos s) \<and>
   (filter_sel s \<notin> {''active'', ''completed''} \<longrightarrow> filteredTodos s = todos s) \<and>
   filteredTodos (setFilter ''active'' s) = filter (\<lambda>t. \<not> completed t) (todos s) \<and>
   filteredTodos (setFilter ''completed'' s) = filter completed (todos s) \<and>
   mset (filteredTodos (setFilter ''active'' s)) + mset (filteredTodos (setFilter ''completed'' s)) =
     mset (todos s)"
  by (simp add: filteredTodos_def setFilter_def add.commute)

theorem filteredTodos_views_witness:
  "filteredTodos \<lparr>todos = [\<lparr>todo_id = 1, todo_text = ''a'', completed = True\<rparr>],
                  newTodo = [], filter_sel = ''x'', local_storage = Map.empty\<rparr> =
   [\<lparr>todo_id = 1, todo_text = ''a'', completed = True\<rparr>]"
  using filteredTodos_views [of "\<lparr>todos = [\<lparr>todo_id = 1, todo_text = ''a'', completed = True\<rparr>],
                  newTodo = [], filter_sel = ''x'', local_storage = Map.empty\<rparr>"]
  by simp

text \<open>
  C12. The counters on the filter buttons agree with the lists they label: the active and
  completed counts are the lengths of the two filtered views, and they add up to the
  number of tasks shown on the \<open>'all'\<close> button.
\<close>

theorem todo_counters:
  "activeTodoCount s = length (filteredTodos (setFilter ''active'' s)) \<and>
   completedTodoCount s = length (filteredTodos (setFilter ''completed'' s)) \<and>
   activeTodoCount s + completedTodoCount s = length (todos s)"
  by (simp add: activeTodoCount_def completedTodoCount_def filteredTodos_def setFilter_def)

text \<open>
  C13. Every event that changes the task list writes the new list to \<open>localStorage\<close>
  before it returns.
\<close>

theorem dispatch_writes_storage:
  assumes "todos (dispatch s e) \<noteq> todos s"
  shows "local_storage (dispatch s e) = store_todos (todos (dispatch s e)) (local_storage s)"
  using dispatch_cases_todos [of s e] assms by blast

theorem dispatch_writes_storage_witness:
  "local_storage (dispatch \<lparr>todos = [], newTodo = ''x'', filter_sel = ''all'', local_storage = Map.empty\<rparr>
                           (Add 1)) =
   store_todos [\<lparr>todo_id = 1, todo_text = ''x'', completed = False\<rparr>] Map.empty"
proof -
  let ?s = "\<lparr>todos = [], newTodo = ''x'', filter_sel = ''all'', local_storage = Map.empty\<rparr>"
  have h: "todos (dispatch ?s (Add 1)) \<noteq> todos ?s"
    by (simp add: addTodo_def js_truthy_str_def js_trim_def js_whitespace_def)
  show ?thesis using dispatch_writes_storage [OF h] h
    by (simp add: addTodo_def js_truthy_str_def js_trim_def js_whitespace_def)
qed

text \<open>
  C14. No event reorders the tasks: the ids and texts after an event are a subsequence of
  those before it, or the list before it with one task appended.
\<close>

theorem dispatch_preserves_order:
  "subseq (map (\<lambda>t. (todo_id t, todo_text t)) (todos (dispatch s e)))
          (map (\<lambda>t. (todo_id t, todo_text t)) (todos s)) \<or>
   (\<exists>t. todos (dispatch s e) = todos s @ [t])"
proof (cases e)
  case (Toggle i)
  have "map (\<lambda>t. (todo_id t, todo_text t)) (todos (toggleTodo i s)) =
        map (\<lambda>t. (todo_id t, todo_text t)) (todos s)"
    by (cases "find (\<lambda>t. todo_id t = i) (todos s)")
       (simp_all add: toggleTodo_missing toggleTodo_found map_update_first_keep)
  then show ?thesis using Toggle by simp
next
  case (Delete i)
  then show ?thesis by (simp add: deleteTodo_def subseq_map_filter)
next
  case Clear
  then show ?thesis by (simp add: clearCompleted_def subseq_map_filter)
qed (auto simp: addTodo_def setFilter_def)

text \<open>
  C15. A stored value made of a list the page wrote followed by any character that is not
  JSON whitespace (a second document appended, a stray bracket) makes \<open>JSON.parse\<close>
  throw on the next load: \<open>data\<close> fails with \<open>SyntaxError\<close> and the page does not
  start. The specification says that corrupt data degrades to an empty list; the code has
  no such fallback.
\<close>

theorem data_trailing_garbage_fails:
  assumes "\<not> json_ws c"
  shows "data (st(''todos'' \<mapsto> json_stringify (json_of_todos ts) @ c # r)) = Inl SyntaxError"
proof -
  have "load_todos (st(''todos'' \<mapsto> json_stringify (json_of_todos ts) @ c # r)) = Inl SyntaxError"
    using json_valid_trailing [OF assms, of "map json_of_todo ts" r]
    by (simp add: load_todos_def stored_text_def json_of_todos_def del: json_stringify.simps)
  then show ?thesis by (simp add: data_def)
qed

theorem data_trailing_garbage_fails_witness:
  "data (Map.empty(''todos'' \<mapsto> json_stringify (json_of_todos []) @ [CHR '']''])) = Inl SyntaxError"
  by (rule data_trailing_garbage_fails) (simp add: json_ws_def)

end
