(* ===== verification/Todo_Session.thy ===== *)
theory Todo_Session
  imports Todo_List
begin

text \<open>
  The page in its environment. A session is the page state together with the value that
  \<open>Date.now()\<close> returns at the moment. The template only emits what a user can click:
  a toggle or a delete carries the id of a task that is shown (\<open>v-for\<close> over
  \<open>filteredTodos\<close>, line 125), the clear button exists only while a task is completed
  (\<open>v-if\<close>, line 116), and the filter buttons pass one of three strings (lines 98--110).
  The clock never goes back (\<open>tick\<close>), but two clicks can see the same millisecond.
  \<open>reachable st\<close> is the set of sessions that arise after the page loads from the storage
  \<open>st\<close>. \<open>strict_step\<close> is the same environment under the assumption the code needs for
  unique ids: at least one millisecond passes at every addition.
\<close>

record session =
  page :: state
  clock :: int

definition ui_allowed :: "session \<Rightarrow> event \<Rightarrow> bool" where
  "ui_allowed s e =
     (case e of
        Input v \<Rightarrow> True
      | Add n \<Rightarrow> n = clock s
      | Toggle i \<Rightarrow> i \<in> set (map todo_id (filteredTodos (page s)))
      | Delete i \<Rightarrow> i \<in> set (map todo_id (filteredTodos (page s)))
      | Clear \<Rightarrow> 0 < completedTodoCount (page s)
      | Select f \<Rightarrow> f \<in> set [''all'', ''active'', ''completed''])"

fun is_add :: "event \<Rightarrow> bool" where
  "is_add (Add n) = True"
| "is_add _ = False"

inductive ui_step :: "session \<Rightarrow> session \<Rightarrow> bool" where
  event: "ui_allowed s e \<Longrightarrow> ui_step s (s\<lparr>page := dispatch (page s) e\<rparr>)"
| tick: "clock s \<le> c \<Longrightarrow> ui_step s (s\<lparr>clock := c\<rparr>)"

inductive reachable :: "storage \<Rightarrow> session \<Rightarrow> bool" for st :: storage where
  load: "data st = Inr p \<Longrightarrow> reachable st \<lparr>page = p, clock = c\<rparr>"
| step: "reachable st s \<Longrightarrow> ui_step s s' \<Longrightarrow> reachable st s'"

definition ids_before :: "int \<Rightarrow> todo list \<Rightarrow> bool" where
  "ids_before c ts \<longleftrightarrow> sorted_wrt (<) (map todo_id ts) \<and> (\<forall>t\<in>set ts. todo_id t < c)"

inductive strict_step :: "session \<Rightarrow> session \<Rightarrow> bool" where
  event: "ui_allowed s e \<Longrightarrow> \<not> is_add e \<Longrightarrow> strict_step s (s\<lparr>page := dispatch (page s) e\<rparr>)"
| add: "strict_step s (s\<lparr>page := addTodo (clock s) (page s), clock := clock s + 1\<rparr>)"
| tick: "clock s \<le> c \<Longrightarrow> strict_step s (s\<lparr>clock := c\<rparr>)"

inductive reachable_strict :: "storage \<Rightarrow> session \<Rightarrow> bool" for st :: storage where
  load: "data st = Inr p \<Longrightarrow> ids_before c (todos p) \<Longrightarrow> reachable_strict st \<lparr>page = p, clock = c\<rparr>"
| step: "reachable_strict st s \<Longrightarrow> strict_step s s' \<Longrightarrow> reachable_strict st s'"

text \<open>A run of user events that the template allows, one after the other.\<close>

fun ui_run :: "session \<Rightarrow> event list \<Rightarrow> session option" where
  "ui_run s [] = Some s"
| "ui_run s (e # es) =
     (if ui_allowed s e then ui_run (s\<lparr>page := dispatch (page s) e\<rparr>) es else None)"

inductive_cases ui_stepE: "ui_step s s'"

subsection \<open>Invariants of the reachable sessions\<close>

lemma data_filter: "data st = Inr p \<Longrightarrow> filter_sel p = ''all'' \<and> persisted p"
  by (auto simp: data_def persisted_def split: sum.splits)

lemma filter_sel_dispatch:
  "ui_allowed s e \<Longrightarrow> filter_sel (page s) \<in> set [''all'', ''active'', ''completed''] \<Longrightarrow>
   filter_sel (dispatch (page s) e) \<in> set [''all'', ''active'', ''completed'']"
  by (cases e) (auto simp: ui_allowed_def todo_ops split: option.splits)

text \<open>
  C17. In every session reachable from a page load, the storage is in step with the list
  (a reload would restore it) and the filter is one of \<open>'all'\<close>, \<open>'active'\<close>,
  \<open>'completed'\<close>.
\<close>

theorem reachable_invariant:
  assumes "reachable st s"
  shows "persisted (page s) \<and> filter_sel (page s) \<in> {''all'', ''active'', ''completed''}"
  using assms
proof (induction rule: reachable.induct)
  case (load p c)
  then show ?case using data_filter [OF load.hyps] by simp
next
  case (step s s')
  from step.hyps(2) step.IH show ?case
    by (cases rule: ui_stepE) (auto simp: dispatch_persisted dest: filter_sel_dispatch)
qed

theorem reachable_invariant_witness:
  "persisted \<lparr>todos = [], newTodo = [], filter_sel = ''all'', local_storage = Map.empty\<rparr> \<and>
   filter_sel \<lparr>todos = [], newTodo = [], filter_sel = ''all'', local_storage = Map.empty\<rparr>
     \<in> {''all'', ''active'', ''completed''}"
proof -
  let ?p = "\<lparr>todos = [], newTodo = [], filter_sel = ''all'', local_storage = Map.empty\<rparr>"
  have "load_todos Map.empty = Inr []" by code_simp
  then have "data Map.empty = Inr ?p" by (simp add: data_def)
  then have "reachable Map.empty \<lparr>page = ?p, clock = 0\<rparr>" by (rule reachable.load)
  then show ?thesis using reachable_invariant by fastforce
qed

subsection \<open>Ids under a clock that may repeat a millisecond\<close>

lemma reachable_ui_run:
  "ui_run s es = Some s' \<Longrightarrow> reachable st s \<Longrightarrow> reachable st s'"
proof (induction s es rule: ui_run.induct)
  case (2 s e es)
  then show ?case
    by (auto split: if_splits intro: reachable.step ui_step.event)
qed simp

lemma data_empty:
  "data Map.empty = Inr \<lparr>todos = [], newTodo = [], filter_sel = ''all'', local_storage = Map.empty\<rparr>"
proof -
  have "load_todos Map.empty = Inr []" by code_simp
  then show ?thesis by (simp add: data_def)
qed

lemma reachable_start:
  "reachable Map.empty
     \<lparr>page = \<lparr>todos = [], newTodo = [], filter_sel = ''all'', local_storage = Map.empty\<rparr>, clock = c\<rparr>"
  using data_empty by (rule reachable.load)

lemma two_adds_same_ms:
  "ui_run \<lparr>page = \<lparr>todos = [], newTodo = [], filter_sel = ''all'', local_storage = Map.empty\<rparr>,
           clock = 0\<rparr> [Input ''a'', Add 0, Input ''b'', Add 0] =
   Some \<lparr>page = \<lparr>todos = [\<lparr>todo_id = 0, todo_text = ''a'', completed = False\<rparr>,
                          \<lparr>todo_id = 0, todo_text = ''b'', completed = False\<rparr>],
                 newTodo = [], filter_sel = ''all'',
                 local_storage = store_todos [\<lparr>todo_id = 0, todo_text = ''a'', completed = False\<rparr>,
                                              \<lparr>todo_id = 0, todo_text = ''b'', completed = False\<rparr>]
                                   (store_todos [\<lparr>todo_id = 0, todo_text = ''a'', completed = False\<rparr>]
                                      Map.empty)\<rparr>,
         clock = 0\<rparr>"
  by (simp add: ui_allowed_def addTodo_def js_truthy_str_def js_trim_def js_whitespace_def)

text \<open>
  C18. Ids are not unique: two additions within the same millisecond, which the clock
  allows, give two tasks with the same id in a reachable session.
\<close>

theorem duplicate_ids_reachable:
  "\<exists>s. reachable Map.empty s \<and> \<not> distinct (map todo_id (todos (page s))) \<and>
       map todo_text (todos (page s)) = [''a'', ''b'']"
  using reachable_ui_run [OF two_adds_same_ms reachable_start] by fastforce

text \<open>
  C19. With two tasks sharing an id, the buttons of the second task act on the wrong
  tasks: its complete button completes the first task and leaves it open, and its delete
  button removes both.
\<close>

theorem duplicate_id_buttons_misfire:
  "\<exists>s. reachable Map.empty s \<and>
       todos (page s) = [\<lparr>todo_id = 0, todo_text = ''a'', completed = False\<rparr>,
                         \<lparr>todo_id = 0, todo_text = ''b'', completed = False\<rparr>] \<and>
       ui_allowed s (item_dispatch (click_complete \<lparr>todo_id = 0, todo_text = ''b'', completed = False\<rparr>)) \<and>
       todos (dispatch (page s)
                (item_dispatch (click_complete \<lparr>todo_id = 0, todo_text = ''b'', completed = False\<rparr>))) =
         [\<lparr>todo_id = 0, todo_text = ''a'', completed = True\<rparr>,
          \<lparr>todo_id = 0, todo_text = ''b'', completed = False\<rparr>] \<and>
       todos (dispatch (page s)
                (item_dispatch (click_delete \<lparr>todo_id = 0, todo_text = ''b'', completed = False\<rparr>))) = []"
proof -
  obtain s where r: "reachable Map.empty s"
    and ts: "page s = \<lparr>todos = [\<lparr>todo_id = 0, todo_text = ''a'', completed = False\<rparr>,
                              \<lparr>todo_id = 0, todo_text = ''b'', completed = False\<rparr>],
                 newTodo = [], filter_sel = ''all'',
                 local_storage = store_todos [\<lparr>todo_id = 0, todo_text = ''a'', completed = False\<rparr>,
                                              \<lparr>todo_id = 0, todo_text = ''b'', completed = False\<rparr>]
                                   (store_todos [\<lparr>todo_id = 0, todo_text = ''a'', completed = False\<rparr>]
                                      Map.empty)\<rparr>"
    using reachable_ui_run [OF two_adds_same_ms reachable_start] by fastforce
  show ?thesis
    by (rule exI [of _ s])
       (simp add: r ts ui_allowed_def click_complete_def click_delete_def filteredTodos_def
                  toggleTodo_def deleteTodo_def)
qed

subsection \<open>Ids under a clock that advances at every addition\<close>

lemma ids_before_map:
  "map todo_id ts = map todo_id ts' \<Longrightarrow> ids_before c ts = ids_before c ts'"
proof -
  assume m: "map todo_id ts = map todo_id ts'"
  have "ids_before c xs \<longleftrightarrow> sorted_wrt (<) (map todo_id xs) \<and> (\<forall>x\<in>set (map todo_id xs). x < c)"
    for xs
    by (simp add: ids_before_def sorted_wrt_map)
  with m show ?thesis by metis
qed

lemma ids_before_filter: "ids_before c ts \<Longrightarrow> ids_before c (filter P ts)"
  by (simp add: ids_before_def sorted_wrt_map sorted_wrt_filter)

lemma ids_before_mono: "ids_before c ts \<Longrightarrow> c \<le> c' \<Longrightarrow> ids_before c' ts"
  by (auto simp: ids_before_def)

lemma ids_before_dispatch:
  assumes "\<not> is_add e" and "ids_before c (todos s)"
  shows "ids_before c (todos (dispatch s e))"
proof (cases e)
  case (Toggle i)
  have "map todo_id (todos (toggleTodo i s)) = map todo_id (todos s)"
    by (cases "find (\<lambda>t. todo_id t = i) (todos s)")
       (simp_all add: toggleTodo_missing toggleTodo_found map_update_first_keep)
  then have "ids_before c (todos (toggleTodo i s)) = ids_before c (todos s)"
    by (rule ids_before_map)
  then show ?thesis using Toggle assms(2) by simp
next
  case (Delete i)
  then show ?thesis using assms(2) by (simp add: deleteTodo_def ids_before_filter)
next
  case Clear
  then show ?thesis using assms(2) by (simp add: clearCompleted_def ids_before_filter)
next
  case (Add n)
  then show ?thesis using assms(1) by simp
qed (use assms(2) in \<open>simp_all add: setFilter_def\<close>)

lemma ids_before_addTodo:
  "ids_before c (todos s) \<Longrightarrow> ids_before (c + 1) (todos (addTodo c s))"
  by (auto simp: addTodo_def ids_before_def sorted_wrt_append)

lemma reachable_strict_ids: "reachable_strict st s \<Longrightarrow> ids_before (clock s) (todos (page s))"
proof (induction rule: reachable_strict.induct)
  case (step s s')
  from step.hyps(2) show ?case
  proof (cases rule: strict_step.cases)
    case (event e)
    then show ?thesis using step.IH by (simp add: ids_before_dispatch)
  next
    case add
    then show ?thesis using step.IH by (simp add: ids_before_addTodo)
  next
    case (tick c)
    then show ?thesis using step.IH by (simp add: ids_before_mono)
  qed
qed simp

text \<open>
  C20. If at least one millisecond passes at every addition, and the tasks loaded from
  storage have increasing ids below the clock, then in every reachable session the ids are
  distinct, and increase in list order (the order of creation).
\<close>

theorem strict_clock_ids_unique:
  assumes "reachable_strict st s"
  shows "distinct (map todo_id (todos (page s))) \<and> sorted_wrt (<) (map todo_id (todos (page s)))"
proof -
  have "sorted_wrt (<) (map todo_id (todos (page s)))"
    using reachable_strict_ids [OF assms] by (simp add: ids_before_def sorted_wrt_map)
  then show ?thesis by (simp add: strict_sorted_iff)
qed

theorem strict_clock_ids_unique_witness:
  "\<exists>s. reachable_strict Map.empty s \<and> map todo_text (todos (page s)) = [''a'', ''b''] \<and>
       distinct (map todo_id (todos (page s)))"
proof -
  let ?s0 = "\<lparr>page = \<lparr>todos = [], newTodo = [], filter_sel = ''all'', local_storage = Map.empty\<rparr>,
              clock = 0\<rparr>"
  let ?s1 = "?s0\<lparr>page := dispatch (page ?s0) (Input ''a'')\<rparr>"
  let ?s2 = "?s1\<lparr>page := addTodo (clock ?s1) (page ?s1), clock := clock ?s1 + 1\<rparr>"
  let ?s3 = "?s2\<lparr>page := dispatch (page ?s2) (Input ''b'')\<rparr>"
  let ?s4 = "?s3\<lparr>page := addTodo (clock ?s3) (page ?s3), clock := clock ?s3 + 1\<rparr>"
  have r0: "reachable_strict Map.empty ?s0"
    by (rule reachable_strict.load [OF data_empty]) (simp add: ids_before_def)
  have r1: "reachable_strict Map.empty ?s1"
    by (rule reachable_strict.step [OF r0], rule strict_step.event) (simp_all add: ui_allowed_def)
  have r2: "reachable_strict Map.empty ?s2"
    by (rule reachable_strict.step [OF r1], rule strict_step.add)
  have r3: "reachable_strict Map.empty ?s3"
    by (rule reachable_strict.step [OF r2], rule strict_step.event) (simp_all add: ui_allowed_def)
  have r4: "reachable_strict Map.empty ?s4"
    by (rule reachable_strict.step [OF r3], rule strict_step.add)
  have "map todo_text (todos (page ?s4)) = [''a'', ''b'']"
    by (simp add: addTodo_def js_truthy_str_def js_trim_def js_whitespace_def)
  moreover have "distinct (map todo_id (todos (page ?s4)))"
    using strict_clock_ids_unique [OF r4] by (rule conjunct1)
  ultimately show ?thesis using r4 by (intro exI [of _ ?s4] conjI)
qed

end
