(* ===== verification/Todo_View.thy ===== *)
theory Todo_View
  imports Todo_Session
begin

text \<open>
  What the template of \<open>TodoList\<close> (\<open>src/app.js\<close> lines 82--138) shows for a state:
  the input, the three filter buttons with their counters and their \<open>active\<close> class, the
  clear button (\<open>v-if="completedTodoCount > 0"\<close>), the list of \<open>TodoItem\<close>s over
  \<open>filteredTodos\<close>, or, when that list is empty, a message chosen by the filter
  (lines 133--136). The messages are named by what they say.
\<close>

datatype empty_msg = Msg_no_todos | Msg_no_active | Msg_no_completed

record page_view =
  input_value :: string
  count_all :: nat
  count_active :: nat
  count_completed :: nat
  all_selected :: bool
  active_selected :: bool
  completed_selected :: bool
  show_clear :: bool
  items :: "item_view list"
  empty_message :: "empty_msg option"

definition empty_msg_of :: "string \<Rightarrow> empty_msg" where
  "empty_msg_of f =
     (if f = ''all'' then Msg_no_todos else if f = ''active'' then Msg_no_active else Msg_no_completed)"

definition render :: "state \<Rightarrow> page_view" where
  "render s =
     \<lparr>input_value = newTodo s,
      count_all = length (todos s),
      count_active = activeTodoCount s,
      count_completed = completedTodoCount s,
      all_selected = (filter_sel s = ''all''),
      active_selected = (filter_sel s = ''active''),
      completed_selected = (filter_sel s = ''completed''),
      show_clear = (0 < completedTodoCount s),
      items = (if 0 < length (filteredTodos s) then map render_item (filteredTodos s) else []),
      empty_message =
        (if 0 < length (filteredTodos s) then None else Some (empty_msg_of (filter_sel s)))\<rparr>"

subsection \<open>Properties of the rendered page\<close>

lemma completedTodoCount_pos: "0 < completedTodoCount s \<longleftrightarrow> (\<exists>t\<in>set (todos s). completed t)"
  by (auto simp: completedTodoCount_def filter_empty_conv)

text \<open>
  C21. The rendered page is consistent with the state: the three counters add up, the
  clear button is shown exactly when some task is completed, the items are the filtered
  tasks in order (each showing its own completion), and the empty-state message appears
  exactly when there is no item.
\<close>

theorem render_consistent:
  "count_active (render s) + count_completed (render s) = count_all (render s) \<and>
   (show_clear (render s) \<longleftrightarrow> (\<exists>t\<in>set (todos s). completed t)) \<and>
   map li_completed (items (render s)) = map completed (filteredTodos s) \<and>
   map task_text (items (render s)) = map todo_text (filteredTodos s) \<and>
   (empty_message (render s) = None \<longleftrightarrow> items (render s) \<noteq> [])"
proof (intro conjI)
  show "count_active (render s) + count_completed (render s) = count_all (render s)"
    by (simp add: render_def activeTodoCount_def completedTodoCount_def)
  show "show_clear (render s) \<longleftrightarrow> (\<exists>t\<in>set (todos s). completed t)"
    by (simp add: render_def completedTodoCount_pos)
  show "map li_completed (items (render s)) = map completed (filteredTodos s)"
    and "map task_text (items (render s)) = map todo_text (filteredTodos s)"
    by (simp_all add: render_def render_item_def comp_def)
  show "empty_message (render s) = None \<longleftrightarrow> items (render s) \<noteq> []"
    by (simp add: render_def)
qed

theorem render_consistent_witness:
  "show_clear (render \<lparr>todos = [\<lparr>todo_id = 1, todo_text = ''a'', completed = True\<rparr>],
                       newTodo = [], filter_sel = ''active'', local_storage = Map.empty\<rparr>) \<and>
   items (render \<lparr>todos = [\<lparr>todo_id = 1, todo_text = ''a'', completed = True\<rparr>],
                  newTodo = [], filter_sel = ''active'', local_storage = Map.empty\<rparr>) = [] \<and>
   empty_message (render \<lparr>todos = [\<lparr>todo_id = 1, todo_text = ''a'', completed = True\<rparr>],
                  newTodo = [], filter_sel = ''active'', local_storage = Map.empty\<rparr>) = Some Msg_no_active"
proof -
  let ?s = "\<lparr>todos = [\<lparr>todo_id = 1, todo_text = ''a'', completed = True\<rparr>],
             newTodo = [], filter_sel = ''active'', local_storage = Map.empty\<rparr>"
  have "show_clear (render ?s)" using render_consistent [of ?s] by simp
  moreover have "items (render ?s) = [] \<and> empty_message (render ?s) = Some Msg_no_active"
    by (simp add: render_def filteredTodos_def empty_msg_of_def)
  ultimately show ?thesis by simp
qed

text \<open>
  C22. A filter value other than the three of the buttons (possible through
  \<open>setFilter\<close>, which takes any string) highlights no button and lists every task, but
  when there is no task it shows the message for the \<open>'completed'\<close> filter.
\<close>

theorem render_unknown_filter:
  assumes "f \<notin> {''all'', ''active'', ''completed''}"
  shows "\<not> all_selected (render (setFilter f s)) \<and> \<not> active_selected (render (setFilter f s)) \<and>
         \<not> completed_selected (render (setFilter f s)) \<and>
         map task_text (items (render (setFilter f s))) = map todo_text (todos s) \<and>
         (todos s = [] \<longrightarrow> empty_message (render (setFilter f s)) = Some Msg_no_completed)"
  using assms by (simp add: render_def setFilter_def filteredTodos_def empty_msg_of_def
                            render_item_def comp_def)

theorem render_unknown_filter_witness:
  "empty_message (render (setFilter ''done'' \<lparr>todos = [], newTodo = [], filter_sel = ''all'',
                                              local_storage = Map.empty\<rparr>)) = Some Msg_no_completed"
  using render_unknown_filter [of "''done''" "\<lparr>todos = [], newTodo = [], filter_sel = ''all'',
                                              local_storage = Map.empty\<rparr>"] by simp

end
