(* ===== verification/Todo_Refinement.thy ===== *)
theory Todo_Refinement
  imports Todo_View
begin

text \<open>
  The abstract store that the specification describes (its TodoStore): a finite map from
  ids to the text and completion flag of a task, the insertion order of the ids, and a
  three-valued filter. Its operations are written from the specification's description of
  \<open>addTask\<close>, \<open>toggleTask\<close>, \<open>deleteTask\<close>, \<open>clearCompleted\<close>, \<open>setFilter\<close> and
  \<open>filteredTasks\<close>. \<open>abs_state\<close> maps a state of the page component to this store; the
  refinement lemmas show that each event of the page acts on the abstraction as the
  corresponding abstract operation, when the ids are distinct and a new id is fresh.
  The abstract \<open>addTask\<close> takes the text as the code stores it (untrimmed, see C4).
\<close>

datatype view_filter = All | Active | Completed

record store_spec =
  spec_tasks :: "int \<rightharpoonup> string \<times> bool"
  spec_order :: "int list"
  spec_filter :: view_filter

datatype spec_op =
    SAdd int string
  | SToggle int
  | SDelete int
  | SClear
  | SSetFilter view_filter
  | SNop

definition open_task :: "(int \<rightharpoonup> string \<times> bool) \<Rightarrow> int \<Rightarrow> bool" where
  "open_task m i = (case m i of Some (x, b) \<Rightarrow> \<not> b | None \<Rightarrow> True)"

fun spec_step :: "spec_op \<Rightarrow> store_spec \<Rightarrow> store_spec" where
  "spec_step (SAdd i x) S =
     S\<lparr>spec_tasks := (spec_tasks S)(i \<mapsto> (x, False)), spec_order := spec_order S @ [i]\<rparr>"
| "spec_step (SToggle i) S =
     (case spec_tasks S i of
        None \<Rightarrow> S
      | Some (x, b) \<Rightarrow> S\<lparr>spec_tasks := (spec_tasks S)(i \<mapsto> (x, \<not> b))\<rparr>)"
| "spec_step (SDelete i) S =
     S\<lparr>spec_tasks := (spec_tasks S)(i := None), spec_order := filter (\<lambda>j. j \<noteq> i) (spec_order S)\<rparr>"
| "spec_step SClear S =
     S\<lparr>spec_tasks := (\<lambda>i. if open_task (spec_tasks S) i then spec_tasks S i else None),
       spec_order := filter (open_task (spec_tasks S)) (spec_order S)\<rparr>"
| "spec_step (SSetFilter f) S = S\<lparr>spec_filter := f\<rparr>"
| "spec_step SNop S = S"

definition shown_by :: "view_filter \<Rightarrow> bool \<Rightarrow> bool" where
  "shown_by f b = (case f of All \<Rightarrow> True | Active \<Rightarrow> \<not> b | Completed \<Rightarrow> b)"

definition spec_filtered :: "store_spec \<Rightarrow> (int \<times> string \<times> bool) list" where
  "spec_filtered S =
     concat (map (\<lambda>i. case spec_tasks S i of
                        Some (x, b) \<Rightarrow> if shown_by (spec_filter S) b then [(i, x, b)] else []
                      | None \<Rightarrow> []) (spec_order S))"

text \<open>The abstraction of the page component.\<close>

definition task_entry :: "todo \<Rightarrow> int \<times> string \<times> bool" where
  "task_entry t = (todo_id t, todo_text t, completed t)"

definition abs_tasks :: "todo list \<Rightarrow> int \<rightharpoonup> string \<times> bool" where
  "abs_tasks ts = map_of (map (\<lambda>t. (todo_id t, (todo_text t, completed t))) ts)"

definition filter_of :: "string \<Rightarrow> view_filter" where
  "filter_of f = (if f = ''active'' then Active else if f = ''completed'' then Completed else All)"

definition abs_state :: "state \<Rightarrow> store_spec" where
  "abs_state s =
     \<lparr>spec_tasks = abs_tasks (todos s), spec_order = map todo_id (todos s),
      spec_filter = filter_of (filter_sel s)\<rparr>"

fun op_of :: "state \<Rightarrow> event \<Rightarrow> spec_op" where
  "op_of s (Input v) = SNop"
| "op_of s (Add n) = (if js_truthy_str (js_trim (newTodo s)) then SAdd n (newTodo s) else SNop)"
| "op_of s (Toggle i) = SToggle i"
| "op_of s (Delete i) = SDelete i"
| "op_of s Clear = SClear"
| "op_of s (Select f) = SSetFilter (filter_of f)"

subsection \<open>Refinement of each operation\<close>


lemma abs_tasks_Cons [simp]:
  "abs_tasks (t # ts) = (abs_tasks ts)(todo_id t \<mapsto> (todo_text t, completed t))"
  by (simp add: abs_tasks_def)

lemma abs_tasks_Nil [simp]: "abs_tasks [] = Map.empty"
  by (simp add: abs_tasks_def)

lemma abs_tasks_toggle:
  "abs_tasks (update_first (\<lambda>t. todo_id t = i) (\<lambda>t. t\<lparr>completed := \<not> completed t\<rparr>) ts) =
   (case abs_tasks ts i of
      None \<Rightarrow> abs_tasks ts
    | Some (x, b) \<Rightarrow> (abs_tasks ts)(i \<mapsto> (x, \<not> b)))"
  by (induction ts) (auto simp: fun_upd_twist split: option.splits)

lemma abs_tasks_delete:
  "abs_tasks (filter (\<lambda>t. todo_id t \<noteq> i) ts) = (abs_tasks ts)(i := None)"
  by (induction ts) (auto simp: fun_upd_twist)

lemma abs_tasks_append_fresh:
  "todo_id t \<notin> set (map todo_id ts) \<Longrightarrow>
   abs_tasks (ts @ [t]) = (abs_tasks ts)(todo_id t \<mapsto> (todo_text t, completed t))"
  by (induction ts) (auto simp: fun_upd_twist)

lemma abs_tasks_None: "abs_tasks ts i = None \<longleftrightarrow> i \<notin> set (map todo_id ts)"
  by (induction ts) auto

lemma abs_tasks_clear:
  "distinct (map todo_id ts) \<Longrightarrow>
   abs_tasks (filter (\<lambda>t. \<not> completed t) ts) =
     (\<lambda>i. if open_task (abs_tasks ts) i then abs_tasks ts i else None)"
proof (induction ts)
  case Nil
  then show ?case by (simp add: fun_eq_iff)
next
  case (Cons t ts)
  then have fresh: "abs_tasks ts (todo_id t) = None" by (simp add: abs_tasks_None)
  show ?case
    using Cons fresh by (auto simp: fun_eq_iff open_task_def)
qed

lemma order_clear:
  "distinct (map todo_id ts) \<Longrightarrow>
   map todo_id (filter (\<lambda>t. \<not> completed t) ts) = filter (open_task (abs_tasks ts)) (map todo_id ts)"
proof (induction ts)
  case (Cons t ts)
  then have "\<forall>j\<in>set (map todo_id ts). open_task (abs_tasks (t # ts)) j = open_task (abs_tasks ts) j"
    by (auto simp: open_task_def image_iff)
  then have rest: "filter (open_task (abs_tasks (t # ts))) (map todo_id ts) =
                   filter (open_task (abs_tasks ts)) (map todo_id ts)"
    by (intro filter_cong) auto
  have hd: "open_task (abs_tasks (t # ts)) (todo_id t) = (\<not> completed t)"
    by (simp add: open_task_def)
  from Cons have "map todo_id (filter (\<lambda>t. \<not> completed t) ts) =
                  filter (open_task (abs_tasks ts)) (map todo_id ts)" by simp
  then show ?case using rest hd by (simp del: abs_tasks_Cons)
qed simp

lemma filter_of_filteredTodos:
  "filteredTodos s = filter (\<lambda>t. shown_by (filter_of (filter_sel s)) (completed t)) (todos s)"
  by (simp add: filteredTodos_def filter_of_def shown_by_def)

lemma dispatch_refines:
  assumes "distinct (map todo_id (todos s))"
    and "\<forall>n. e = Add n \<longrightarrow> n \<notin> set (map todo_id (todos s))"
  shows "abs_state (dispatch s e) = spec_step (op_of s e) (abs_state s)"
proof (cases e)
  case (Input v)
  then show ?thesis by (simp add: abs_state_def)
next
  case (Add n)
  then show ?thesis
    using assms(2) by (auto simp: abs_state_def addTodo_def abs_tasks_append_fresh)
next
  case (Toggle i)
  show ?thesis
  proof (cases "find (\<lambda>t. todo_id t = i) (todos s)")
    case None
    then have "abs_tasks (todos s) i = None"
      by (auto simp: abs_tasks_None find_None_iff)
    with None Toggle show ?thesis by (simp add: toggleTodo_missing abs_state_def)
  next
    case (Some t)
    with Toggle show ?thesis
      by (auto simp: abs_state_def toggleTodo_found abs_tasks_toggle map_update_first_keep
               split: option.splits)
  qed
next
  case (Delete i)
  then show ?thesis by (simp add: abs_state_def deleteTodo_def abs_tasks_delete filter_map comp_def)
next
  case Clear
  then show ?thesis
    using assms(1)
    by (simp add: abs_state_def clearCompleted_def abs_tasks_clear order_clear fun_eq_iff)
next
  case (Select f)
  then show ?thesis by (simp add: abs_state_def setFilter_def)
qed


lemma spec_filtered_abs:
  "distinct (map todo_id ts) \<Longrightarrow>
   concat (map (\<lambda>i. case abs_tasks ts i of
                      Some (x, b) \<Rightarrow> if shown_by f b then [(i, x, b)] else []
                    | None \<Rightarrow> []) (map todo_id ts)) =
   map task_entry (filter (\<lambda>t. shown_by f (completed t)) ts)"
proof (induction ts)
  case (Cons t ts)
  let ?g = "\<lambda>m i. case m i of
              Some (x, b) \<Rightarrow> if shown_by f b then [(i, x, b)] else [] | None \<Rightarrow> []"
  have "\<forall>j\<in>set (map todo_id ts). ?g (abs_tasks (t # ts)) j = ?g (abs_tasks ts) j"
    using Cons.prems by (auto simp: image_iff)
  then have eq: "map (?g (abs_tasks (t # ts))) (map todo_id ts) = map (?g (abs_tasks ts)) (map todo_id ts)"
    by (intro map_cong) auto
  from Cons.prems have "distinct (map todo_id ts)" by simp
  then have tl: "concat (map (?g (abs_tasks (t # ts))) (map todo_id ts)) =
                 map task_entry (filter (\<lambda>t. shown_by f (completed t)) ts)"
    by (simp only: eq Cons.IH)
  have hd: "?g (abs_tasks (t # ts)) (todo_id t) =
            (if shown_by f (completed t) then [task_entry t] else [])"
    by (simp add: task_entry_def)
  show ?case
    by (simp only: list.map concat.simps hd tl) simp
qed simp

lemma ids_before_distinct: "ids_before c ts \<Longrightarrow> distinct (map todo_id ts)"
  unfolding ids_before_def by (induction ts) auto

subsection \<open>The page refines the specified store\<close>

text \<open>
  C23. In every session reachable under a clock that advances at every addition, each
  event the template allows acts on the abstract store as the specified operation:
  adding, toggling, deleting, clearing and selecting a filter on the page are the
  specification's \<open>addTask\<close>, \<open>toggleTask\<close>, \<open>deleteTask\<close>, \<open>clearCompleted\<close> and
  \<open>setFilter\<close> on the abstraction (and typing is no operation).
\<close>

theorem strict_session_refines:
  assumes "reachable_strict st s" and "ui_allowed s e"
  shows "abs_state (dispatch (page s) e) = spec_step (op_of (page s) e) (abs_state (page s))"
proof (rule dispatch_refines)
  have ids: "ids_before (clock s) (todos (page s))"
    using assms(1) by (rule reachable_strict_ids)
  then show "distinct (map todo_id (todos (page s)))"
    by (rule ids_before_distinct)
  show "\<forall>n. e = Add n \<longrightarrow> n \<notin> set (map todo_id (todos (page s)))"
    using ids assms(2) by (auto simp: ids_before_def ui_allowed_def)
qed

theorem strict_session_refines_witness:
  "abs_state (dispatch \<lparr>todos = [], newTodo = ''a'', filter_sel = ''all'', local_storage = Map.empty\<rparr> (Add 0)) =
   spec_step (SAdd 0 ''a'') (abs_state \<lparr>todos = [], newTodo = ''a'', filter_sel = ''all'',
                                         local_storage = Map.empty\<rparr>)"
proof -
  let ?p0 = "\<lparr>todos = [], newTodo = [], filter_sel = ''all'', local_storage = Map.empty\<rparr>"
  let ?s0 = "\<lparr>page = ?p0, clock = 0\<rparr>"
  let ?s1 = "?s0\<lparr>page := dispatch (page ?s0) (Input ''a'')\<rparr>"
  have r0: "reachable_strict Map.empty ?s0"
    by (rule reachable_strict.load [OF data_empty]) (simp add: ids_before_def)
  have r1: "reachable_strict Map.empty ?s1"
    by (rule reachable_strict.step [OF r0], rule strict_step.event) (simp_all add: ui_allowed_def)
  have a: "ui_allowed ?s1 (Add 0)" by (simp add: ui_allowed_def)
  show ?thesis
    using strict_session_refines [OF r1 a]
    by (simp add: js_truthy_str_def js_trim_def js_whitespace_def)
qed

text \<open>
  C24. When the ids are distinct, the filtered list that the page renders is the
  specification's \<open>filteredTasks\<close> of the abstraction: under each of the three filters
  the same tasks, with the same text and completion, in insertion order.
\<close>

theorem filtered_view_refines:
  assumes "distinct (map todo_id (todos s))"
  shows "spec_filtered (abs_state s) = map task_entry (filteredTodos s)"
  unfolding spec_filtered_def abs_state_def store_spec.select_convs filter_of_filteredTodos
  by (rule spec_filtered_abs [OF assms])

theorem filtered_view_refines_witness:
  "spec_filtered (abs_state \<lparr>todos = [\<lparr>todo_id = 1, todo_text = ''a'', completed = True\<rparr>,
                                     \<lparr>todo_id = 2, todo_text = ''b'', completed = False\<rparr>],
                            newTodo = [], filter_sel = ''active'', local_storage = Map.empty\<rparr>) =
   [(2, ''b'', False)]"
proof -
  let ?s = "\<lparr>todos = [\<lparr>todo_id = 1, todo_text = ''a'', completed = True\<rparr>,
                     \<lparr>todo_id = 2, todo_text = ''b'', completed = False\<rparr>],
            newTodo = [], filter_sel = ''active'', local_storage = Map.empty\<rparr>"
  have h: "distinct (map todo_id (todos ?s))" by simp
  show ?thesis using filtered_view_refines [OF h]
    by (simp add: filteredTodos_def task_entry_def)
qed

end
