(* ===== verification/Spec2Isabelle.thy ===== *)
theory Spec2Isabelle
  imports Todo_Refinement
begin

text \<open>
  Verification of the to-do list of \<open>src/app.js\<close> (a Vue 3 single-page application).

  \<^bold>\<open>The program.\<close> One file defines a \<open>TodoItem\<close> component (lines 2--15: a task with
  its complete and delete buttons, which emit \<open>toggle-todo\<close> and \<open>delete-todo\<close> with the
  task's id), a \<open>TodoList\<close> page component (lines 18--139) that owns the task list, the
  text of the input field and the selected filter, computes the filtered list and two
  counters, and writes the list to \<open>localStorage\<close> as JSON after every change; and a
  router with the single route \<open>/\<close> that mounts \<open>TodoList\<close> (lines 141--155). The page
  reads the list back with \<open>JSON.parse\<close> when it loads (line 24).

  \<^bold>\<open>Theories and what they model.\<close>
  \<^item> \<open>Todo_Prelude\<close>: \<open>update_first\<close>, the list form of \<open>xs.find(p)\<close> followed by
    an in-place mutation of the found object (\<open>toggleTodo\<close>, lines 60--66), and the list,
    filter and association-list lemmas the components share.
  \<^item> \<open>Js_String\<close>: \<open>String.prototype.trim\<close> (\<open>js_trim\<close>) and the truthiness of a
    string (\<open>js_truthy_str\<close>), used by the guard of \<open>addTodo\<close> (line 49).
  \<^item> \<open>Json\<close>: \<open>JSON.stringify\<close> (\<open>json_stringify\<close>, with \<open>QuoteJSONString\<close> as
    \<open>json_quote\<close>) and \<open>JSON.parse\<close>: a recursive-descent parser
    \<open>parse_value\<close>/\<open>parse_elems\<close>/\<open>parse_members\<close>, used strictly by \<open>json_parse\<close>
    (the values the model represents) and laxly by \<open>json_valid\<close> (the whole JSON
    grammar: it fails exactly where the library throws).
  \<^item> \<open>Todo_Item\<close>: the task record \<open>todo\<close> (the object literal of lines 50--54) and
    \<open>TodoItem\<close> (\<open>render_item\<close>, \<open>click_complete\<close>, \<open>click_delete\<close>).
  \<^item> \<open>Todo_Storage\<close>: \<open>localStorage\<close> as a map from keys to strings, the encoding of
    the list (\<open>json_of_todos\<close>, \<open>store_todos\<close>, line 79) and the load expression
    \<open>JSON.parse(localStorage.getItem('todos') || '[]')\<close> (\<open>load_todos\<close>, line 24),
    whose exception is the value \<open>Inl SyntaxError\<close>.
  \<^item> \<open>Todo_List\<close>: the page state as the record \<open>state\<close> (\<open>todos\<close>, \<open>newTodo\<close>,
    \<open>filter\<close> as \<open>filter_sel\<close>, and the \<open>localStorage\<close> the methods write);
    \<open>data\<close>; the computed \<open>filteredTodos\<close>, \<open>activeTodoCount\<close>,
    \<open>completedTodoCount\<close>; one definition per method (\<open>addTodo\<close>, \<open>toggleTodo\<close>,
    \<open>deleteTodo\<close>, \<open>clearCompleted\<close>, \<open>setFilter\<close>, \<open>saveTodos\<close>), each with the
    \<open>saveTodos\<close> call and the guards of the source; the datatype \<open>event\<close> of the
    template's bindings and \<open>dispatch\<close>, which sends each to its method; \<open>run\<close> for a
    sequence of events.
  \<^item> \<open>Todo_Session\<close>: the page in its environment. A \<open>session\<close> pairs the state with
    the value of \<open>Date.now()\<close>. \<open>ui_allowed\<close> says which events the template can
    emit in a state (a toggle or delete names a shown task, clear needs a completed task,
    a filter button passes one of three strings, add passes the current clock).
    \<open>ui_step\<close> is the step relation of user events and clock ticks, \<open>reachable\<close> the
    sessions after a page load; \<open>strict_step\<close>/\<open>reachable_strict\<close> are the same
    environment when at least a millisecond passes at every addition.
  \<^item> \<open>Todo_View\<close>: what the template of \<open>TodoList\<close> shows (\<open>render\<close>, lines
    82--138): counters, the selected button, the clear button, the items and the
    empty-state message.
  \<^item> \<open>Todo_Refinement\<close>: the abstract store of the specification (a map from ids to
    text and completion, the order of the ids, a three-valued filter) with its operations
    \<open>spec_step\<close> and its query \<open>spec_filtered\<close>, and the abstraction \<open>abs_state\<close> of
    the page state.

  \<^bold>\<open>What is proved.\<close>
  \<^item> JSON: \<open>json_parse\<close> inverts \<open>json_stringify\<close> on every value, with trailing
    whitespace (C1); the parser's fuel is never the limit on any input (C16).
  \<^item> Storage: the list written by \<open>saveTodos\<close> is read back by the load expression
    and no other key changes (C2); a stored list followed by a stray character makes
    \<open>JSON.parse\<close> throw, so the page does not start (C15).
  \<^item> Methods: each method's effect on every branch (C4--C10), the filtered views and
    counters (C11, C12), that every change of the list is written to storage (C13) and
    the storage stays in step over any sequence of events (C3), and that no event
    reorders the surviving tasks (C14).
  \<^item> Sessions: an invariant of every reachable session by rule induction (C17); that two
    additions in the same millisecond give two tasks the same id, reachable from an
    empty store (C18), after which the buttons of the second task act on the first (C19);
    and that under a strictly advancing clock the ids stay sorted and unique (C20).
  \<^item> View: the rendered page agrees with the state (C21), and its behaviour for a filter
    string none of the buttons selects (C22).
  \<^item> Refinement: under a strictly advancing clock every allowed event acts on the
    abstraction as the specified operation (C23), and the rendered list is the
    specified filtered query (C24).
  \<^item> In this theory: a sequence of additions appends exactly the non-blank texts, as
    typed, in order (C25).

  \<^bold>\<open>Fuel and bounds.\<close> The only loop that may not end on every input is the JSON
  parser's recursion into nested arrays and objects. It takes fuel, spent once on entering
  an array or object and once per element or member, and \<open>json_parse\<close> and
  \<open>json_valid\<close> give it \<open>2 * length s + 1\<close> units. Every successful call consumes at
  least one character, so the fuel spent is at most twice the characters consumed, and
  \<open>json_parse_fuel_enough\<close> (C16) shows that more fuel never changes the result on any
  input. Every other loop of the program is a list function (\<open>filter\<close>, \<open>find\<close>,
  \<open>map\<close>) and terminates structurally.

  \<^bold>\<open>Assumptions of the model.\<close> Ids are JavaScript numbers from \<open>Date.now()\<close>,
  modelled as \<open>int\<close> (exact below \<open>2^53\<close>, printed without exponent below \<open>10^21\<close>).
  Characters are code units below 256 (Isabelle's \<open>char\<close>), so \<open>trim\<close> knows the
  whitespace of that range. \<open>json_valid\<close> is the whole JSON grammar over such text, so
  \<open>Inl SyntaxError\<close> is exactly the case where \<open>JSON.parse\<close> throws. A valid document
  that is not in the form the page writes (\<open>{}\<close>, \<open>[1]\<close>, keys in another order,
  a fractional id, a \<open>\u\<close> escape above \<open>00ff\<close>) is loaded by line 24 as it is; the
  model stops there with \<open>Inl Outside_model\<close> instead of following JavaScript's dynamic
  semantics on such a value.

  \<^bold>\<open>Not modelled.\<close> The router and the mounting of the application (lines
  141--155) only install the page; Vue's reactivity and re-rendering are taken as
  re-evaluating \<open>render\<close> after every method call; DOM events other than the template's
  bindings do not exist for the program; a \<open>localStorage\<close> write that fails (quota) is
  not modelled, the code does not handle it.
\<close>

text \<open>
  C25. A sequence of additions (typing a text, then pressing add at some time) appends to
  the list exactly one open task for each text that is not blank after trimming, with the
  text as typed and the time as id, in the order of the additions; blank texts add nothing.
\<close>

theorem add_sequence_appends:
  "todos (run s (concat (map (\<lambda>(x, n). [Input x, Add n]) ps))) =
   todos s @ map (\<lambda>(x, n). \<lparr>todo_id = n, todo_text = x, completed = False\<rparr>)
                 (filter (\<lambda>(x, n). js_trim x \<noteq> []) ps)"
proof (induction ps arbitrary: s)
  case (Cons p ps)
  obtain x n where "p = (x, n)" by (cases p)
  with Cons show ?case by (simp add: addTodo_def js_truthy_str_def)
qed simp

end
